theory Spec2Isabelle
  imports Complex_Main "HOL-Library.Word"
begin

section \<open>The Floower firmware supervisor (floower-esp32.ino)\<close>

text \<open>
  A shallow embedding of the sketch \<^verbatim>\<open>src/floower-esp32/floower-esp32.ino\<close>: its
  five global variables, \<^verbatim>\<open>setup\<close>, \<^verbatim>\<open>loop\<close>, \<^verbatim>\<open>periodicOperation\<close>,
  \<^verbatim>\<open>powerWatchDog\<close>, \<^verbatim>\<open>planDeepSleep\<close>, \<^verbatim>\<open>enterDeepSleep\<close> and
  \<^verbatim>\<open>configure\<close>.

  \<^item> The target is an ESP32: \<^verbatim>\<open>long\<close> and \<^verbatim>\<open>unsigned long\<close> are 32 bits wide.
    Timestamps are \<open>32 word\<close>; \<^verbatim>\<open>a < b\<close> on two \<^verbatim>\<open>long\<close>s is the signed
    comparison \<open>a <s b\<close>; \<^verbatim>\<open>millis() + t\<close> is computed in \<^verbatim>\<open>unsigned long\<close>,
    wraps modulo \<open>2 ^ 32\<close>, and is stored in a \<^verbatim>\<open>long\<close> with the same bits.
    \<^verbatim>\<open>now + PERIODIC_OPERATIONS_INTERVAL\<close> (line 116) is a signed addition; the model
    gives it the two's complement result.
  \<^item> Every value the sketch reads from a collaborator or from the clock is an input
    of the model: one record of readings per call of \<^verbatim>\<open>setup\<close> and per iteration
    of \<^verbatim>\<open>loop\<close>, one field per reading site.
  \<^item> Every call the sketch makes that acts on a collaborator or on the platform is
    appended to a trace of events, in program order. Logging
    (\<^verbatim>\<open>Serial.begin\<close>, \<^verbatim>\<open>ESP_LOGx\<close>) is left out.
  \<^item> \<^verbatim>\<open>esp_deep_sleep_start()\<close> does not return: an iteration that calls it ends
    there, with outcome \<open>Suspended\<close>.
  \<^item> The battery voltage is a \<open>real\<close>; the sketch only compares it with
    constants.
  \<^item> The watchdog is armed and reset by traced calls; what the platform does when it
    expires is outside the sketch and outside the model.
\<close>

subsection \<open>Data\<close>

type_synonym long = "32 word"

text \<open>
  Modelled from the spec: \<^verbatim>\<open>struct Battery\<close> is declared in \<^verbatim>\<open>floower.h\<close>, which
  is not part of the sources at hand. The sketch reads its fields \<^verbatim>\<open>voltage\<close> and
  \<^verbatim>\<open>level\<close>; the specification describes them as a real voltage and a percentage.
\<close>

record Battery =
  voltage :: real
  level :: nat

text \<open>The two colour constants and the two colour modes the sketch passes to \<^verbatim>\<open>setColor\<close>.\<close>

datatype color = colorRed | colorBlack

datatype FloowerColorMode = TRANSITION | FLASH

datatype event =
    WdtInit nat bool
  | WdtAdd
  | WdtReset
  | ConfigBegin
  | ConfigLoad
  | RegisterOutsideTouch
  | BtStop
  | FloowerInit
  | FloowerUpdate
  | ReadBatteryState
  | Delay nat
  | SetLowPowerMode bool
  | SetColor color FloowerColorMode nat
  | InitServo
  | SetPetalsOpenLevel nat nat
  | AutomatonInit
  | Acty
  | SetBatteryLevel nat bool
  | RemoteInit
  | StartAdvertising
  | EnableTouchpadWakeup
  | DeepSleepStart

text \<open>
  The globals of lines 38 to 42, the trace, and one field of the \<^verbatim>\<open>floower\<close> object.

  Modelled from the spec: class \<^verbatim>\<open>Floower\<close> is declared in \<^verbatim>\<open>floower.h\<close>, which is
  not part of the sources at hand. \<open>lowPowerMode\<close> is the flag that
  \<^verbatim>\<open>floower.setLowPowerMode(b)\<close> stores and \<^verbatim>\<open>floower.isLowPowerMode()\<close> returns
  (the LowPower mode of the specification's power state machine).
\<close>

record state =
  batteryDead :: bool
  batteryCharging :: bool
  deepSleepTime :: long
  periodicOperationsTime :: long
  initRemoteTime :: long
  lowPowerMode :: bool
  trace :: "event list"

text \<open>The readings of one call of \<^verbatim>\<open>setup\<close>.\<close>

record boot =
  wakeupTouchpad :: bool         \<comment> \<open>\<^verbatim>\<open>ESP_SLEEP_WAKEUP_TOUCHPAD == wakeup_reason\<close>, line 63\<close>
  bootUSBPowered :: bool         \<comment> \<open>\<^verbatim>\<open>floower.isUSBPowered()\<close>, line 77\<close>
  firstBattery :: Battery        \<comment> \<open>\<^verbatim>\<open>floower.readBatteryState()\<close>, line 79\<close>
  secondBattery :: Battery       \<comment> \<open>\<^verbatim>\<open>floower.readBatteryState()\<close>, line 82\<close>
  deadWarningMillis :: long      \<comment> \<open>\<^verbatim>\<open>millis()\<close> in \<^verbatim>\<open>planDeepSleep\<close>, called at line 90\<close>
  initRemoteOnStartup :: bool    \<comment> \<open>\<^verbatim>\<open>config.initRemoteOnStartup\<close>, line 100\<close>
  remoteMillis :: long           \<comment> \<open>\<^verbatim>\<open>millis()\<close>, line 101\<close>
  periodicMillis :: long         \<comment> \<open>\<^verbatim>\<open>millis()\<close>, line 105\<close>

text \<open>The readings of one iteration of \<^verbatim>\<open>loop\<close>.\<close>

record tick =
  now :: long                    \<comment> \<open>\<^verbatim>\<open>millis()\<close>, line 114\<close>
  isUSBPowered :: bool           \<comment> \<open>\<^verbatim>\<open>floower.isUSBPowered()\<close>, line 160\<close>
  battery :: Battery             \<comment> \<open>\<^verbatim>\<open>floower.readBatteryState()\<close>, line 161\<close>
  deadMillis :: long             \<comment> \<open>\<^verbatim>\<open>millis()\<close> in \<^verbatim>\<open>planDeepSleep\<close>, called at line 171\<close>
  arePetalsMoving :: bool        \<comment> \<open>\<^verbatim>\<open>floower.arePetalsMoving()\<close>, line 124\<close>
  isLit :: bool                  \<comment> \<open>\<^verbatim>\<open>floower.isLit()\<close>, line 132\<close>
  isIdle :: bool                 \<comment> \<open>\<^verbatim>\<open>floower.isIdle()\<close>, line 132\<close>
  getPetalOpenLevel :: int       \<comment> \<open>\<^verbatim>\<open>floower.getPetalOpenLevel()\<close>, line 132\<close>
  isConnected :: bool            \<comment> \<open>\<^verbatim>\<open>remote.isConnected()\<close>, line 132\<close>
  inactivityMillis :: long       \<comment> \<open>\<^verbatim>\<open>millis()\<close> in \<^verbatim>\<open>planDeepSleep\<close>, called at line 134\<close>
  isIdleAtEnd :: bool            \<comment> \<open>\<^verbatim>\<open>floower.isIdle()\<close>, line 144\<close>

datatype outcome = Running state | Suspended state

subsection \<open>Configuration constants (lines 11 to 36)\<close>

definition deepSleepEnabled :: bool where
  "deepSleepEnabled = True"

definition POWER_LOW_ENTER_THRESHOLD :: real where
  "POWER_LOW_ENTER_THRESHOLD = 0"

definition POWER_LOW_LEAVE_THRESHOLD :: real where
  "POWER_LOW_LEAVE_THRESHOLD = 0"

definition POWER_DEAD_THRESHOLD :: real where
  "POWER_DEAD_THRESHOLD = 34 / 10"

definition REMOTE_INIT_TIMEOUT :: long where
  "REMOTE_INIT_TIMEOUT = 2000"

definition DEEP_SLEEP_INACTIVITY_TIMEOUT :: long where
  "DEEP_SLEEP_INACTIVITY_TIMEOUT = 60000"

definition BATTERY_DEAD_WARNING_DURATION :: long where
  "BATTERY_DEAD_WARNING_DURATION = 5000"

definition PERIODIC_OPERATIONS_INTERVAL :: long where
  "PERIODIC_OPERATIONS_INTERVAL = 3000"

definition WDT_TIMEOUT :: nat where
  "WDT_TIMEOUT = 10"

subsection \<open>The functions of the sketch\<close>

definition emit :: "event \<Rightarrow> state \<Rightarrow> state" where
  "emit ev s = s\<lparr>trace := trace s @ [ev]\<rparr>"

text \<open>\<^verbatim>\<open>floower.setLowPowerMode(b)\<close>: the call is traced and the flag stored.\<close>

definition setLowPowerMode :: "bool \<Rightarrow> state \<Rightarrow> state" where
  "setLowPowerMode b s = emit (SetLowPowerMode b) (s\<lparr>lowPowerMode := b\<rparr>)"

text \<open>Lines 184 to 187; the first argument is what \<^verbatim>\<open>millis()\<close> returns there.\<close>

definition planDeepSleep :: "long \<Rightarrow> long \<Rightarrow> state \<Rightarrow> state" where
  "planDeepSleep millis timeoutMs s = s\<lparr>deepSleepTime := millis + timeoutMs\<rparr>"

text \<open>Lines 189 to 195.\<close>

definition enterDeepSleep :: "state \<Rightarrow> state" where
  "enterDeepSleep s = emit DeepSleepStart (emit BtStop (emit EnableTouchpadWakeup s))"

text \<open>Lines 197 to 205; \<^verbatim>\<open>CALIBRATE_HARDWARE\<close> is not defined.\<close>

definition configure :: "state \<Rightarrow> state" where
  "configure s = emit ConfigLoad (emit ConfigBegin s)"

text \<open>
  Lines 155 to 182, with the three thresholds of lines 26 to 28 as parameters.
\<close>

definition powerWatchDogWith :: "real \<Rightarrow> real \<Rightarrow> real \<Rightarrow> tick \<Rightarrow> state \<Rightarrow> state" where
  "powerWatchDogWith lowEnter lowLeave dead e s =
     (if batteryDead s then s
      else
        let s1 = s\<lparr>batteryCharging := isUSBPowered e\<rparr>;
            s2 = emit ReadBatteryState s1;
            s3 = emit (SetBatteryLevel (level (battery e)) (batteryCharging s2)) s2
        in
          if batteryCharging s3 then setLowPowerMode False s3
          else if voltage (battery e) < dead then
            (planDeepSleep (deadMillis e) 0
               (emit (SetPetalsOpenLevel 0 2500)
                  (emit (SetColor colorBlack TRANSITION 2500) s3)))\<lparr>batteryDead := True\<rparr>
          else if \<not> lowPowerMode s3 \<and> voltage (battery e) < lowEnter then
            setLowPowerMode True s3
          else if lowPowerMode s3 \<and> voltage (battery e) \<ge> lowLeave then
            setLowPowerMode False s3
          else s3)"

definition powerWatchDog :: "tick \<Rightarrow> state \<Rightarrow> state" where
  "powerWatchDog =
     powerWatchDogWith POWER_LOW_ENTER_THRESHOLD POWER_LOW_LEAVE_THRESHOLD POWER_DEAD_THRESHOLD"

text \<open>Lines 149 to 153.\<close>

definition periodicOperation :: "tick \<Rightarrow> state \<Rightarrow> state" where
  "periodicOperation e s = powerWatchDog e (emit Acty (emit WdtReset s))"

text \<open>Lines 49 to 108: \<^verbatim>\<open>setup\<close> (the name is an Isabelle keyword, hence the suffix).\<close>

definition setup_sketch :: "boot \<Rightarrow> state \<Rightarrow> state" where
  "setup_sketch b s0 =
     (let s1 = emit WdtAdd (emit (WdtInit WDT_TIMEOUT True) s0);
          s2 = configure s1;
          wasSleeping = (deepSleepEnabled \<and> wakeupTouchpad b);
          s3 = (if wasSleeping then emit RegisterOutsideTouch s2 else s2);
          s4 = emit (Delay 50) (emit ReadBatteryState (emit FloowerInit (emit BtStop s3)));
          s5 = s4\<lparr>batteryCharging := bootUSBPowered b\<rparr>;
          s6 = (if \<not> batteryCharging s5 then
                  let s6a = emit ReadBatteryState s5 in
                  if voltage (firstBattery b) < POWER_DEAD_THRESHOLD then
                    (emit ReadBatteryState (emit (Delay 500) s6a))
                      \<lparr>batteryDead := voltage (secondBattery b) < POWER_DEAD_THRESHOLD\<rparr>
                  else s6a
                else s5)
      in
        if batteryDead s6 then
          emit (SetColor colorRed FLASH 1000)
            (setLowPowerMode True
               (planDeepSleep (deadWarningMillis b) BATTERY_DEAD_WARNING_DURATION s6))
        else
          let s7 = emit InitServo s6;
              s8 = (if \<not> wasSleeping then emit (SetPetalsOpenLevel 0 100) s7 else s7);
              s9 = (if initRemoteOnStartup b
                    then s8\<lparr>initRemoteTime := remoteMillis b + REMOTE_INIT_TIMEOUT\<rparr> else s8);
              s10 = emit AutomatonInit s9
          in s10\<lparr>periodicOperationsTime := periodicMillis b + PERIODIC_OPERATIONS_INTERVAL\<rparr>)"

text \<open>
  The state in which \<^verbatim>\<open>setup\<close> starts: the initialisers of lines 38 to 42, an empty
  trace, and the \<^verbatim>\<open>floower\<close> object's low-power flag as its constructor left it.
\<close>

definition powerOn :: "bool \<Rightarrow> state" where
  "powerOn lp =
     \<lparr>batteryDead = False, batteryCharging = False, deepSleepTime = 0,
      periodicOperationsTime = 0, initRemoteTime = 0, lowPowerMode = lp, trace = []\<rparr>"

text \<open>Line 115: the condition under which the iteration runs the periodic operation.\<close>

definition periodicDue :: "tick \<Rightarrow> state \<Rightarrow> bool" where
  "periodicDue e s \<longleftrightarrow> periodicOperationsTime s \<noteq> 0 \<and> periodicOperationsTime s <s now e"

text \<open>Lines 115 to 118 of \<^verbatim>\<open>loop\<close>: the periodic timer.\<close>

definition loopPeriodic :: "tick \<Rightarrow> state \<Rightarrow> state" where
  "loopPeriodic e s =
     (if periodicDue e s
      then periodicOperation e
             (s\<lparr>periodicOperationsTime := now e + PERIODIC_OPERATIONS_INTERVAL\<rparr>)
      else s)"

text \<open>Line 119: the condition under which the iteration initialises the remote.\<close>

definition remoteDue :: "tick \<Rightarrow> state \<Rightarrow> bool" where
  "remoteDue e s \<longleftrightarrow> initRemoteTime s \<noteq> 0 \<and> initRemoteTime s <s now e"

text \<open>Lines 119 to 123: the deferred initialisation of the remote.\<close>

definition loopInitRemote :: "tick \<Rightarrow> state \<Rightarrow> state" where
  "loopInitRemote e s =
     (if remoteDue e s
      then emit StartAdvertising (emit RemoteInit (s\<lparr>initRemoteTime := 0\<rparr>))
      else s)"

text \<open>Line 124: the condition under which the iteration enters deep sleep.\<close>

definition sleepFires :: "tick \<Rightarrow> state \<Rightarrow> bool" where
  "sleepFires e s \<longleftrightarrow>
     deepSleepTime s \<noteq> 0 \<and> deepSleepTime s <s now e \<and> \<not> arePetalsMoving e"

text \<open>Line 132: the five conditions under which deep sleep is planned.\<close>

definition inactive :: "tick \<Rightarrow> state \<Rightarrow> bool" where
  "inactive e s \<longleftrightarrow>
     \<not> batteryCharging s \<and> \<not> isLit e \<and> isIdle e \<and> getPetalOpenLevel e = 0 \<and> \<not> isConnected e"

text \<open>Lines 130 to 141.\<close>

definition loopPlan :: "tick \<Rightarrow> state \<Rightarrow> state" where
  "loopPlan e s =
     (if deepSleepEnabled \<and> \<not> batteryDead s then
        if inactive e s then
          if deepSleepTime s = 0
          then planDeepSleep (inactivityMillis e) DEEP_SLEEP_INACTIVITY_TIMEOUT s
          else s
        else if deepSleepTime s \<noteq> 0 then s\<lparr>deepSleepTime := 0\<rparr>
        else s
      else s)"

text \<open>Lines 144 to 146.\<close>

definition loopIdle :: "tick \<Rightarrow> state \<Rightarrow> state" where
  "loopIdle e s = (if isIdleAtEnd e then emit (Delay 10) s else s)"

text \<open>Lines 111 to 123: the state in which the iteration reaches line 124.\<close>

definition loopTimers :: "tick \<Rightarrow> state \<Rightarrow> state" where
  "loopTimers e s = loopInitRemote e (loopPeriodic e (emit FloowerUpdate s))"

text \<open>Lines 110 to 147: one iteration.\<close>

definition loop :: "tick \<Rightarrow> state \<Rightarrow> outcome" where
  "loop e s =
     (let s1 = loopTimers e s
      in if sleepFires e s1
         then Suspended (enterDeepSleep (s1\<lparr>deepSleepTime := 0\<rparr>))
         else Running (loopIdle e (loopPlan e s1)))"

text \<open>
  The Arduino core calls \<^verbatim>\<open>loop\<close> again and again; \<open>run\<close> performs the iterations
  whose readings are given, and stops at the one that enters deep sleep.
\<close>

fun run :: "tick list \<Rightarrow> state \<Rightarrow> outcome" where
  "run [] s = Running s"
| "run (e # es) s =
     (case loop e s of Running s' \<Rightarrow> run es s' | Suspended s' \<Rightarrow> Suspended s')"

fun final :: "outcome \<Rightarrow> state" where
  "final (Running s) = s"
| "final (Suspended s) = s"

fun suspended :: "outcome \<Rightarrow> bool" where
  "suspended (Running s) = False"
| "suspended (Suspended s) = True"

text \<open>
  The periodic check on its own, over a sequence of samples, with the thresholds as
  parameters.
\<close>

definition samples :: "real \<Rightarrow> real \<Rightarrow> real \<Rightarrow> tick list \<Rightarrow> state \<Rightarrow> state" where
  "samples lowEnter lowLeave dead es s =
     foldl (\<lambda>s' e. powerWatchDogWith lowEnter lowLeave dead e s') s es"

text \<open>The specification's power mode, read off the two flags.\<close>

datatype PowerMode = Normal | LowPower | Dead

definition powerMode :: "state \<Rightarrow> PowerMode" where
  "powerMode s = (if batteryDead s then Dead else if lowPowerMode s then LowPower else Normal)"

text \<open>
  The conditions of lines 156, 164 and 167 under which a call of \<^verbatim>\<open>powerWatchDog\<close>
  takes the dead-battery branch.
\<close>

definition declaresDead :: "tick \<Rightarrow> state \<Rightarrow> bool" where
  "declaresDead e s \<longleftrightarrow>
     \<not> batteryDead s \<and> \<not> isUSBPowered e \<and> voltage (battery e) < POWER_DEAD_THRESHOLD"

text \<open>
  The events that \<^verbatim>\<open>powerWatchDog\<close> emits once it is past the guard of line 156:
  the battery reading, the report to the remote, and the calls of the threshold branches.
\<close>

fun powerEvent :: "event \<Rightarrow> bool" where
  "powerEvent ReadBatteryState = True"
| "powerEvent (SetBatteryLevel l c) = True"
| "powerEvent (SetLowPowerMode b) = True"
| "powerEvent (SetColor c m d) = True"
| "powerEvent (SetPetalsOpenLevel l d) = True"
| "powerEvent ev = False"

text \<open>The two calls of the deferred initialisation, and the watchdog reset.\<close>

fun remoteEvent :: "event \<Rightarrow> bool" where
  "remoteEvent RemoteInit = True"
| "remoteEvent StartAdvertising = True"
| "remoteEvent ev = False"

fun wdtEvent :: "event \<Rightarrow> bool" where
  "wdtEvent WdtReset = True"
| "wdtEvent ev = False"

text \<open>
  The clock readings (line 114) of the iterations of a run that reset the watchdog:
  those that run the periodic operation.
\<close>

fun resetTimes :: "tick list \<Rightarrow> state \<Rightarrow> long list" where
  "resetTimes [] s = []"
| "resetTimes (e # es) s =
     (if periodicDue e s then [now e] else []) @
     (case loop e s of Running s' \<Rightarrow> resetTimes es s' | Suspended s' \<Rightarrow> [])"

text \<open>
  A sequence of iterations is paced by \<open>d\<close> from time \<open>t\<close> when the clock readings
  of line 114 never go back, each is at most \<open>d\<close> ms after the one before (the first
  at most \<open>d\<close> after \<open>t\<close>), and the clock stays clear of the signed 32-bit limit.
\<close>

fun paced :: "int \<Rightarrow> int \<Rightarrow> tick list \<Rightarrow> bool" where
  "paced d t [] = True"
| "paced d t (e # es) =
     (t \<le> sint (now e) \<and> sint (now e) \<le> t + d \<and>
      sint (now e) + sint PERIODIC_OPERATIONS_INTERVAL < 2 ^ 31 \<and>
      paced d (sint (now e)) es)"

text \<open>
  A list of clock readings is spaced by \<open>g\<close> from time \<open>r\<close> when each is more than
  \<open>PERIODIC_OPERATIONS_INTERVAL\<close> and at most \<open>g\<close> after the one before (the first
  after \<open>r\<close>).
\<close>

fun spaced :: "int \<Rightarrow> int \<Rightarrow> long list \<Rightarrow> bool" where
  "spaced g r [] = True"
| "spaced g r (x # xs) =
     (r + sint PERIODIC_OPERATIONS_INTERVAL < sint x \<and> sint x \<le> r + g \<and>
      spaced g (sint x) xs)"

subsection \<open>Example readings\<close>

text \<open>
  An iteration at clock reading \<open>t\<close> of a device that runs on a battery at 4.0 V and is
  at rest: nothing moves, nothing is lit, the petals are closed, no remote is connected.
\<close>

definition restTick :: "long \<Rightarrow> tick" where
  "restTick t =
     \<lparr>now = t, isUSBPowered = False, battery = \<lparr>voltage = 4, level = 80\<rparr>, deadMillis = t,
      arePetalsMoving = False, isLit = False, isIdle = True, getPetalOpenLevel = 0,
      isConnected = False, inactivityMillis = t, isIdleAtEnd = True\<rparr>"

text \<open>A state of normal operation: nothing is armed but the periodic timer, at \<open>p\<close>.\<close>

definition awake :: "long \<Rightarrow> state" where
  "awake p = (powerOn False)\<lparr>periodicOperationsTime := p\<rparr>"

text \<open>
  A call of \<^verbatim>\<open>setup\<close> at clock reading \<open>t\<close> after a cold start, on a battery that
  reads \<open>v\<close> volts both times, with the remote to be initialised on startup.
\<close>

definition bootAt :: "long \<Rightarrow> real \<Rightarrow> boot" where
  "bootAt t v =
     \<lparr>wakeupTouchpad = False, bootUSBPowered = False,
      firstBattery = \<lparr>voltage = v, level = 50\<rparr>, secondBattery = \<lparr>voltage = v, level = 50\<rparr>,
      deadWarningMillis = t, initRemoteOnStartup = True, remoteMillis = t, periodicMillis = t\<rparr>"

section \<open>Properties\<close>

subsection \<open>Basic facts about the steps\<close>

lemma emit_fields [simp]:
  "batteryDead (emit ev s) = batteryDead s"
  "batteryCharging (emit ev s) = batteryCharging s"
  "deepSleepTime (emit ev s) = deepSleepTime s"
  "periodicOperationsTime (emit ev s) = periodicOperationsTime s"
  "initRemoteTime (emit ev s) = initRemoteTime s"
  "lowPowerMode (emit ev s) = lowPowerMode s"
  "trace (emit ev s) = trace s @ [ev]"
  by (simp_all add: emit_def)

text \<open>The defining equations, for evaluating the sketch on given readings.\<close>

lemmas sketch_defs =
  setup_sketch_def configure_def loop_def loopTimers_def loopPeriodic_def periodicDue_def
  loopInitRemote_def remoteDue_def periodicOperation_def powerWatchDog_def
  powerWatchDogWith_def sleepFires_def loopPlan_def inactive_def loopIdle_def
  enterDeepSleep_def planDeepSleep_def setLowPowerMode_def emit_def declaresDead_def Let_def

lemmas constant_defs =
  deepSleepEnabled_def POWER_LOW_ENTER_THRESHOLD_def POWER_LOW_LEAVE_THRESHOLD_def
  POWER_DEAD_THRESHOLD_def REMOTE_INIT_TIMEOUT_def DEEP_SLEEP_INACTIVITY_TIMEOUT_def
  BATTERY_DEAD_WARNING_DURATION_def PERIODIC_OPERATIONS_INTERVAL_def WDT_TIMEOUT_def

lemmas example_defs = restTick_def awake_def powerOn_def bootAt_def

lemma setLowPowerMode_fields [simp]:
  "batteryDead (setLowPowerMode b s) = batteryDead s"
  "batteryCharging (setLowPowerMode b s) = batteryCharging s"
  "deepSleepTime (setLowPowerMode b s) = deepSleepTime s"
  "periodicOperationsTime (setLowPowerMode b s) = periodicOperationsTime s"
  "initRemoteTime (setLowPowerMode b s) = initRemoteTime s"
  "lowPowerMode (setLowPowerMode b s) = b"
  "trace (setLowPowerMode b s) = trace s @ [SetLowPowerMode b]"
  by (simp_all add: setLowPowerMode_def)

lemma planDeepSleep_fields [simp]:
  "batteryDead (planDeepSleep m t s) = batteryDead s"
  "batteryCharging (planDeepSleep m t s) = batteryCharging s"
  "deepSleepTime (planDeepSleep m t s) = m + t"
  "periodicOperationsTime (planDeepSleep m t s) = periodicOperationsTime s"
  "initRemoteTime (planDeepSleep m t s) = initRemoteTime s"
  "lowPowerMode (planDeepSleep m t s) = lowPowerMode s"
  "trace (planDeepSleep m t s) = trace s"
  by (simp_all add: planDeepSleep_def)

lemma enterDeepSleep_fields [simp]:
  "batteryDead (enterDeepSleep s) = batteryDead s"
  "batteryCharging (enterDeepSleep s) = batteryCharging s"
  "deepSleepTime (enterDeepSleep s) = deepSleepTime s"
  "periodicOperationsTime (enterDeepSleep s) = periodicOperationsTime s"
  "initRemoteTime (enterDeepSleep s) = initRemoteTime s"
  "lowPowerMode (enterDeepSleep s) = lowPowerMode s"
  "trace (enterDeepSleep s) = trace s @ [EnableTouchpadWakeup, BtStop, DeepSleepStart]"
  by (simp_all add: enterDeepSleep_def)

lemma powerWatchDog_dead: "batteryDead s \<Longrightarrow> powerWatchDog e s = s"
  by (simp add: powerWatchDog_def powerWatchDogWith_def)

text \<open>What the periodic check does to each global.\<close>

lemma powerWatchDog_fields:
  "periodicOperationsTime (powerWatchDog e s) = periodicOperationsTime s"
  "initRemoteTime (powerWatchDog e s) = initRemoteTime s"
  "batteryDead (powerWatchDog e s) \<longleftrightarrow> batteryDead s \<or> declaresDead e s"
  "deepSleepTime (powerWatchDog e s) = (if declaresDead e s then deadMillis e else deepSleepTime s)"
  "batteryCharging (powerWatchDog e s) = (if batteryDead s then batteryCharging s else isUSBPowered e)"
  by (simp_all add: powerWatchDog_def powerWatchDogWith_def Let_def declaresDead_def)

text \<open>
  The boot-time check sets \<open>batteryDead\<close> only on two readings below the threshold.
\<close>

lemma setup_dead_iff:
  "batteryDead (setup_sketch b (powerOn lp)) \<longleftrightarrow>
     \<not> bootUSBPowered b \<and> voltage (firstBattery b) < POWER_DEAD_THRESHOLD \<and>
     voltage (secondBattery b) < POWER_DEAD_THRESHOLD"
  by (simp add: setup_sketch_def Let_def powerOn_def configure_def)

subsection \<open>The dead battery\<close>

lemma loop_dead:
  assumes "batteryDead s"
  shows "batteryDead (final (loop e s))"
    and "lowPowerMode (final (loop e s)) = lowPowerMode s"
    and "filter powerEvent (trace (final (loop e s))) = filter powerEvent (trace s)"
  using assms
  by (simp_all add: loop_def Let_def loopTimers_def loopPeriodic_def periodicOperation_def
      powerWatchDog_dead loopInitRemote_def loopPlan_def loopIdle_def)

lemma run_dead:
  "batteryDead s \<Longrightarrow>
     batteryDead (final (run es s)) \<and> lowPowerMode (final (run es s)) = lowPowerMode s \<and>
     filter powerEvent (trace (final (run es s))) = filter powerEvent (trace s)"
proof (induction es arbitrary: s)
  case Nil
  then show ?case by simp
next
  case (Cons e es)
  show ?case
  proof (cases "loop e s")
    case (Running s')
    with loop_dead [OF Cons.prems, of e]
    have "batteryDead s'" "lowPowerMode s' = lowPowerMode s"
      "filter powerEvent (trace s') = filter powerEvent (trace s)"
      by simp_all
    with Cons.IH [of s'] Running show ?thesis by simp
  next
    case (Suspended s')
    with loop_dead [OF Cons.prems, of e] show ?thesis by simp
  qed
qed

text \<open>
  C1. Once \<open>batteryDead\<close> is set, the power mode stays Dead for the rest of the process
  lifetime: the periodic check returns the state as it got it, and over any further
  iterations of \<^verbatim>\<open>loop\<close> the mode is Dead, the low-power flag keeps its value, and
  no battery reading, no report and no call of a threshold branch is added to the trace.
\<close>

theorem dead_is_terminal:
  "batteryDead s \<Longrightarrow>
     powerWatchDog e s = s \<and>
     powerMode (final (run es s)) = Dead \<and>
     lowPowerMode (final (run es s)) = lowPowerMode s \<and>
     filter powerEvent (trace (final (run es s))) = filter powerEvent (trace s)"
  using run_dead [of s es] by (simp add: powerWatchDog_dead powerMode_def)

theorem dead_is_terminal_witness:
  "batteryDead ((awake 4000)\<lparr>batteryDead := True\<rparr>) \<and>
   powerWatchDog ((restTick 5000)\<lparr>isUSBPowered := True\<rparr>) ((awake 4000)\<lparr>batteryDead := True\<rparr>)
     = (awake 4000)\<lparr>batteryDead := True\<rparr> \<and>
   powerMode (final (run [(restTick 5000)\<lparr>isUSBPowered := True\<rparr>, restTick 9000]
     ((awake 4000)\<lparr>batteryDead := True\<rparr>))) = Dead \<and>
   lowPowerMode (final (run [(restTick 5000)\<lparr>isUSBPowered := True\<rparr>, restTick 9000]
     ((awake 4000)\<lparr>batteryDead := True\<rparr>))) = False \<and>
   filter powerEvent (trace (final (run [(restTick 5000)\<lparr>isUSBPowered := True\<rparr>, restTick 9000]
     ((awake 4000)\<lparr>batteryDead := True\<rparr>)))) = []"
  using dead_is_terminal [of "(awake 4000)\<lparr>batteryDead := True\<rparr>"
      "(restTick 5000)\<lparr>isUSBPowered := True\<rparr>"
      "[(restTick 5000)\<lparr>isUSBPowered := True\<rparr>, restTick 9000]"]
  by (simp add: awake_def powerOn_def)

text \<open>
  C2 (runtime half). At run time a single reading below \<open>POWER_DEAD_THRESHOLD\<close>
  commits to Dead: on a battery-powered sample of 3.3 V the periodic check reads the
  battery once, waits for nothing, reads no second time, and sets \<open>batteryDead\<close>.
\<close>

theorem runtime_dead_on_single_reading:
  "powerWatchDog ((restTick 5000)\<lparr>battery := \<lparr>voltage = 33 / 10, level = 1\<rparr>\<rparr>) (awake 4000) =
     (awake 4000)\<lparr>deepSleepTime := 5000, batteryDead := True,
        trace := [ReadBatteryState, SetBatteryLevel 1 False,
                  SetColor colorBlack TRANSITION 2500, SetPetalsOpenLevel 0 2500]\<rparr>"
  by (simp add: sketch_defs constant_defs example_defs)

subsection \<open>External power\<close>

text \<open>
  C6 as stated fails for the prior mode Dead: from a cold start on a good battery, the
  periodic operation at 5000 ms declares the battery dead; at 8001 ms external power is
  present and the periodic operation is due, and the mode stays Dead: the check returns
  at its guard and does not call \<^verbatim>\<open>setLowPowerMode(false)\<close>.
\<close>

theorem dead_stays_dead_on_external_power:
  "isUSBPowered ((restTick 8001)\<lparr>isUSBPowered := True, arePetalsMoving := True\<rparr>) \<and>
   periodicDue ((restTick 8001)\<lparr>isUSBPowered := True, arePetalsMoving := True\<rparr>)
     (final (run
        [(restTick 5000)\<lparr>battery := \<lparr>voltage = 33 / 10, level = 1\<rparr>, arePetalsMoving := True\<rparr>]
        (setup_sketch (bootAt 100 4) (powerOn False)))) \<and>
   \<not> suspended (run
      [(restTick 5000)\<lparr>battery := \<lparr>voltage = 33 / 10, level = 1\<rparr>, arePetalsMoving := True\<rparr>,
       (restTick 8001)\<lparr>isUSBPowered := True, arePetalsMoving := True\<rparr>]
      (setup_sketch (bootAt 100 4) (powerOn False))) \<and>
   powerMode (final (run
      [(restTick 5000)\<lparr>battery := \<lparr>voltage = 33 / 10, level = 1\<rparr>, arePetalsMoving := True\<rparr>,
       (restTick 8001)\<lparr>isUSBPowered := True, arePetalsMoving := True\<rparr>]
      (setup_sketch (bootAt 100 4) (powerOn False)))) = Dead \<and>
   SetLowPowerMode False \<notin> set (trace (final (run
      [(restTick 5000)\<lparr>battery := \<lparr>voltage = 33 / 10, level = 1\<rparr>, arePetalsMoving := True\<rparr>,
       (restTick 8001)\<lparr>isUSBPowered := True, arePetalsMoving := True\<rparr>]
      (setup_sketch (bootAt 100 4) (powerOn False)))))"
  by (simp add: sketch_defs constant_defs example_defs powerMode_def)

text \<open>
  C6, amended. A periodic check made while external power is present and the mode is
  not Dead makes the mode Normal, whatever the low-power flag and the sampled voltage
  were: the flag is cleared, the sleep deadline is left alone, and after the battery
  reading and the report the only call is \<^verbatim>\<open>setLowPowerMode(false)\<close>, so neither
  the dead-battery branch nor the low-power-enter branch is taken. In Dead mode the
  check changes nothing.
\<close>

theorem usb_power_gives_normal:
  "(\<not> batteryDead s \<and> isUSBPowered e \<longrightarrow>
      powerMode (powerWatchDog e s) = Normal \<and>
      \<not> lowPowerMode (powerWatchDog e s) \<and>
      deepSleepTime (powerWatchDog e s) = deepSleepTime s \<and>
      trace (powerWatchDog e s) =
        trace s @ [ReadBatteryState, SetBatteryLevel (level (battery e)) True,
                   SetLowPowerMode False]) \<and>
   (batteryDead s \<longrightarrow> powerWatchDog e s = s \<and> powerMode (powerWatchDog e s) = Dead)"
  by (simp add: powerWatchDog_def powerWatchDogWith_def Let_def powerMode_def)

theorem usb_power_gives_normal_witness:
  "\<not> batteryDead ((awake 4000)\<lparr>lowPowerMode := True\<rparr>) \<and>
   isUSBPowered ((restTick 5000)\<lparr>isUSBPowered := True, battery := \<lparr>voltage = 3, level = 2\<rparr>\<rparr>) \<and>
   powerMode (powerWatchDog
      ((restTick 5000)\<lparr>isUSBPowered := True, battery := \<lparr>voltage = 3, level = 2\<rparr>\<rparr>)
      ((awake 4000)\<lparr>lowPowerMode := True\<rparr>)) = Normal \<and>
   trace (powerWatchDog
      ((restTick 5000)\<lparr>isUSBPowered := True, battery := \<lparr>voltage = 3, level = 2\<rparr>\<rparr>)
      ((awake 4000)\<lparr>lowPowerMode := True\<rparr>)) =
     [ReadBatteryState, SetBatteryLevel 2 True, SetLowPowerMode False] \<and>
   batteryDead ((awake 4000)\<lparr>batteryDead := True\<rparr>) \<and>
   powerMode (powerWatchDog ((restTick 5000)\<lparr>isUSBPowered := True\<rparr>)
      ((awake 4000)\<lparr>batteryDead := True\<rparr>)) = Dead"
  using usb_power_gives_normal [of "(awake 4000)\<lparr>lowPowerMode := True\<rparr>"
      "(restTick 5000)\<lparr>isUSBPowered := True, battery := \<lparr>voltage = 3, level = 2\<rparr>\<rparr>"]
    usb_power_gives_normal [of "(awake 4000)\<lparr>batteryDead := True\<rparr>"
      "(restTick 5000)\<lparr>isUSBPowered := True\<rparr>"]
  by (simp add: awake_def powerOn_def restTick_def powerMode_def)

subsection \<open>The report to the remote\<close>

text \<open>
  C7 as stated fails: from a cold start on a good battery, the periodic operation at
  5000 ms reads 3.3 V and declares the battery dead while the petals are moving; the
  periodic operation at 8001 ms, in Dead mode, resets the watchdog and calls
  \<^verbatim>\<open>acty\<close>, and forwards nothing to the remote.
\<close>

theorem dead_mode_forwards_nothing:
  "trace (final (run
      [(restTick 5000)\<lparr>battery := \<lparr>voltage = 33 / 10, level = 1\<rparr>, arePetalsMoving := True\<rparr>,
       (restTick 8001)\<lparr>battery := \<lparr>voltage = 33 / 10, level = 1\<rparr>, arePetalsMoving := True\<rparr>]
      (setup_sketch (bootAt 100 4) (powerOn False)))) =
     [WdtInit 10 True, WdtAdd, ConfigBegin, ConfigLoad, BtStop, FloowerInit, ReadBatteryState,
      Delay 50, ReadBatteryState, InitServo, SetPetalsOpenLevel 0 100, AutomatonInit,
      FloowerUpdate, WdtReset, Acty, ReadBatteryState, SetBatteryLevel 1 False,
      SetColor colorBlack TRANSITION 2500, SetPetalsOpenLevel 0 2500, RemoteInit,
      StartAdvertising, Delay 10,
      FloowerUpdate, WdtReset, Acty, Delay 10]"
  by (simp add: sketch_defs constant_defs example_defs)

text \<open>
  C7, amended. A periodic check in a mode other than Dead reads the battery and then
  forwards the level, together with the external-power flag it has just read, to the
  remote, before any threshold is looked at; in Dead mode the check adds nothing to the
  trace.
\<close>

theorem sample_forwarded_unless_dead:
  "(\<not> batteryDead s \<longrightarrow>
      take 2 (drop (length (trace s)) (trace (powerWatchDog e s))) =
        [ReadBatteryState, SetBatteryLevel (level (battery e)) (isUSBPowered e)]) \<and>
   (batteryDead s \<longrightarrow> trace (powerWatchDog e s) = trace s)"
  by (simp add: powerWatchDog_def powerWatchDogWith_def Let_def)

theorem sample_forwarded_unless_dead_witness:
  "\<not> batteryDead (awake 4000) \<and>
   take 2 (drop (length (trace (awake 4000))) (trace (powerWatchDog (restTick 5000) (awake 4000))))
     = [ReadBatteryState, SetBatteryLevel 80 False] \<and>
   batteryDead ((awake 4000)\<lparr>batteryDead := True\<rparr>) \<and>
   trace (powerWatchDog (restTick 5000) ((awake 4000)\<lparr>batteryDead := True\<rparr>)) = []"
  using sample_forwarded_unless_dead [of "awake 4000" "restTick 5000"]
    sample_forwarded_unless_dead [of "(awake 4000)\<lparr>batteryDead := True\<rparr>" "restTick 5000"]
  by (simp add: awake_def powerOn_def restTick_def)

subsection \<open>The low-power thresholds\<close>

text \<open>
  C3 as stated fails: the two configured thresholds are equal, so the leave threshold
  is not strictly greater than the enter threshold.
\<close>

theorem no_configured_hysteresis_gap:
  "\<not> POWER_LOW_ENTER_THRESHOLD < POWER_LOW_LEAVE_THRESHOLD"
  by (simp add: POWER_LOW_ENTER_THRESHOLD_def POWER_LOW_LEAVE_THRESHOLD_def)

lemma hysteresis_step:
  "\<not> isUSBPowered e \<Longrightarrow> lowEnter \<le> voltage (battery e) \<Longrightarrow> voltage (battery e) < lowLeave \<Longrightarrow>
     lowPowerMode (powerWatchDogWith lowEnter lowLeave dead e s) = lowPowerMode s"
  by (simp add: powerWatchDogWith_def Let_def)

text \<open>
  C3, amended. The configured thresholds are equal. With any two thresholds in their
  place, over every sequence of samples taken on battery power whose voltages are at or
  above the enter threshold and below the leave threshold, the low-power flag keeps its
  value: the mode does not toggle between Normal and LowPower.
\<close>

theorem hysteresis_between_thresholds:
  "POWER_LOW_LEAVE_THRESHOLD = POWER_LOW_ENTER_THRESHOLD \<and>
   ((\<forall>e\<in>set es. \<not> isUSBPowered e \<and> lowEnter \<le> voltage (battery e) \<and>
        voltage (battery e) < lowLeave) \<longrightarrow>
    lowPowerMode (samples lowEnter lowLeave dead es s) = lowPowerMode s)"
proof -
  have "lowPowerMode (samples lowEnter lowLeave dead es s) = lowPowerMode s"
    if "\<forall>e\<in>set es. \<not> isUSBPowered e \<and> lowEnter \<le> voltage (battery e) \<and>
        voltage (battery e) < lowLeave"
    using that unfolding samples_def
    by (induction es arbitrary: s) (simp_all add: hysteresis_step)
  then show ?thesis
    by (simp add: POWER_LOW_ENTER_THRESHOLD_def POWER_LOW_LEAVE_THRESHOLD_def)
qed

theorem hysteresis_between_thresholds_witness:
  "\<not> isUSBPowered ((restTick 5000)\<lparr>battery := \<lparr>voltage = 358 / 100, level = 20\<rparr>\<rparr>) \<and>
   355 / 100 \<le> voltage (battery ((restTick 5000)\<lparr>battery := \<lparr>voltage = 358 / 100, level = 20\<rparr>\<rparr>)) \<and>
   voltage (battery ((restTick 5000)\<lparr>battery := \<lparr>voltage = 358 / 100, level = 20\<rparr>\<rparr>)) < 36 / 10 \<and>
   \<not> isUSBPowered ((restTick 8001)\<lparr>battery := \<lparr>voltage = 356 / 100, level = 19\<rparr>\<rparr>) \<and>
   355 / 100 \<le> voltage (battery ((restTick 8001)\<lparr>battery := \<lparr>voltage = 356 / 100, level = 19\<rparr>\<rparr>)) \<and>
   voltage (battery ((restTick 8001)\<lparr>battery := \<lparr>voltage = 356 / 100, level = 19\<rparr>\<rparr>)) < 36 / 10 \<and>
   lowPowerMode (samples (355 / 100) (36 / 10) (34 / 10)
      [(restTick 5000)\<lparr>battery := \<lparr>voltage = 358 / 100, level = 20\<rparr>\<rparr>,
       (restTick 8001)\<lparr>battery := \<lparr>voltage = 356 / 100, level = 19\<rparr>\<rparr>]
      ((awake 4000)\<lparr>lowPowerMode := True\<rparr>)) \<and>
   \<not> lowPowerMode (samples (355 / 100) (36 / 10) (34 / 10)
      [(restTick 5000)\<lparr>battery := \<lparr>voltage = 358 / 100, level = 20\<rparr>\<rparr>,
       (restTick 8001)\<lparr>battery := \<lparr>voltage = 356 / 100, level = 19\<rparr>\<rparr>]
      (awake 4000))"
  using hysteresis_between_thresholds
    [of "[(restTick 5000)\<lparr>battery := \<lparr>voltage = 358 / 100, level = 20\<rparr>\<rparr>,
          (restTick 8001)\<lparr>battery := \<lparr>voltage = 356 / 100, level = 19\<rparr>\<rparr>]"
        "355 / 100" "36 / 10" "34 / 10" "(awake 4000)\<lparr>lowPowerMode := True\<rparr>"]
    hysteresis_between_thresholds
    [of "[(restTick 5000)\<lparr>battery := \<lparr>voltage = 358 / 100, level = 20\<rparr>\<rparr>,
          (restTick 8001)\<lparr>battery := \<lparr>voltage = 356 / 100, level = 19\<rparr>\<rparr>]"
        "355 / 100" "36 / 10" "34 / 10" "awake 4000"]
  by (simp add: restTick_def awake_def powerOn_def)

lemma powerWatchDog_no_entry:
  "filter (\<lambda>ev. ev = SetLowPowerMode True) (trace (powerWatchDog e s)) =
     filter (\<lambda>ev. ev = SetLowPowerMode True) (trace s)"
  "lowPowerMode (powerWatchDog e s) \<Longrightarrow> lowPowerMode s"
  by (simp_all add: powerWatchDog_def powerWatchDogWith_def Let_def POWER_LOW_ENTER_THRESHOLD_def
      POWER_DEAD_THRESHOLD_def split: if_splits)

lemma loopTimers_no_entry:
  "filter (\<lambda>ev. ev = SetLowPowerMode True) (trace (loopTimers e s)) =
     filter (\<lambda>ev. ev = SetLowPowerMode True) (trace s)"
  "lowPowerMode (loopTimers e s) \<Longrightarrow> lowPowerMode s"
  using powerWatchDog_no_entry(2)
    [of e "emit Acty (emit WdtReset ((emit FloowerUpdate s)
             \<lparr>periodicOperationsTime := now e + PERIODIC_OPERATIONS_INTERVAL\<rparr>))"]
  by (simp_all add: loopTimers_def loopInitRemote_def loopPeriodic_def periodicOperation_def
      powerWatchDog_no_entry(1) split: if_splits)

lemma loop_no_entry:
  "filter (\<lambda>ev. ev = SetLowPowerMode True) (trace (final (loop e s))) =
     filter (\<lambda>ev. ev = SetLowPowerMode True) (trace s)"
  "lowPowerMode (final (loop e s)) \<Longrightarrow> lowPowerMode s"
  using loopTimers_no_entry(2) [of e s]
  by (simp_all add: loop_def Let_def loopPlan_def loopIdle_def loopTimers_no_entry(1)
      split: if_splits)

lemma run_no_entry:
  "filter (\<lambda>ev. ev = SetLowPowerMode True) (trace (final (run es s))) =
     filter (\<lambda>ev. ev = SetLowPowerMode True) (trace s) \<and>
   (lowPowerMode (final (run es s)) \<longrightarrow> lowPowerMode s)"
proof (induction es arbitrary: s)
  case Nil
  show ?case by simp
next
  case (Cons e es)
  show ?case
  proof (cases "loop e s")
    case (Running s')
    with loop_no_entry [of e s] Cons.IH [of s'] show ?thesis by simp
  next
    case (Suspended s')
    with loop_no_entry [of e s] show ?thesis by simp
  qed
qed

text \<open>
  C10. With the configured thresholds the periodic check never takes the branch that
  enters low-power mode, at any voltage (so at every non-negative one): it adds no call
  \<^verbatim>\<open>setLowPowerMode(true)\<close> to the trace, and the flag is set after the check only if
  it was set before. The same holds over any sequence of iterations of \<^verbatim>\<open>loop\<close>.
  \<^verbatim>\<open>setup\<close> calls \<^verbatim>\<open>setLowPowerMode(true)\<close> exactly when it finds the battery dead.
\<close>

theorem low_power_entered_at_boot_only:
  "filter (\<lambda>ev. ev = SetLowPowerMode True) (trace (powerWatchDog e s)) =
     filter (\<lambda>ev. ev = SetLowPowerMode True) (trace s) \<and>
   (lowPowerMode (powerWatchDog e s) \<longrightarrow> lowPowerMode s) \<and>
   filter (\<lambda>ev. ev = SetLowPowerMode True) (trace (final (run es s))) =
     filter (\<lambda>ev. ev = SetLowPowerMode True) (trace s) \<and>
   (lowPowerMode (final (run es s)) \<longrightarrow> lowPowerMode s) \<and>
   (SetLowPowerMode True \<in> set (trace (setup_sketch b (powerOn lp))) \<longleftrightarrow>
      batteryDead (setup_sketch b (powerOn lp)))"
proof -
  have "SetLowPowerMode True \<in> set (trace (setup_sketch b (powerOn lp))) \<longleftrightarrow>
      batteryDead (setup_sketch b (powerOn lp))"
    by (simp add: setup_sketch_def Let_def powerOn_def configure_def)
  with run_no_entry [of es s] powerWatchDog_no_entry [of e s] show ?thesis
    by blast
qed

theorem low_power_entered_at_boot_only_witness:
  "lowPowerMode (powerWatchDog ((restTick 5000)\<lparr>battery := \<lparr>voltage = 33 / 10, level = 1\<rparr>\<rparr>)
      ((awake 4000)\<lparr>lowPowerMode := True\<rparr>)) \<and>
   lowPowerMode (final (run [(restTick 5000)\<lparr>battery := \<lparr>voltage = 33 / 10, level = 1\<rparr>\<rparr>]
      ((awake 4000)\<lparr>lowPowerMode := True\<rparr>))) \<and>
   lowPowerMode ((awake 4000)\<lparr>lowPowerMode := True\<rparr>) \<and>
   SetLowPowerMode True \<in> set (trace (setup_sketch (bootAt 100 (33 / 10)) (powerOn False))) \<and>
   batteryDead (setup_sketch (bootAt 100 (33 / 10)) (powerOn False))"
proof -
  have dead: "batteryDead (setup_sketch (bootAt 100 (33 / 10)) (powerOn False))"
    by (simp add: setup_dead_iff bootAt_def POWER_DEAD_THRESHOLD_def)
  from dead low_power_entered_at_boot_only
    [of "(restTick 5000)\<lparr>battery := \<lparr>voltage = 33 / 10, level = 1\<rparr>\<rparr>"
        "(awake 4000)\<lparr>lowPowerMode := True\<rparr>"
        "[(restTick 5000)\<lparr>battery := \<lparr>voltage = 33 / 10, level = 1\<rparr>\<rparr>]"
        "bootAt 100 (33 / 10)" False]
  show ?thesis
    by (simp add: sketch_defs constant_defs example_defs)
qed

subsection \<open>The iteration, stage by stage\<close>

lemma loopTimers_fields:
  "batteryDead (loopTimers e s) \<longleftrightarrow> batteryDead s \<or> periodicDue e s \<and> declaresDead e s"
  "deepSleepTime (loopTimers e s) =
     (if periodicDue e s \<and> declaresDead e s then deadMillis e else deepSleepTime s)"
  "periodicOperationsTime (loopTimers e s) =
     (if periodicDue e s then now e + PERIODIC_OPERATIONS_INTERVAL else periodicOperationsTime s)"
  "initRemoteTime (loopTimers e s) = (if remoteDue e s then 0 else initRemoteTime s)"
  by (auto simp add: loopTimers_def loopPeriodic_def loopInitRemote_def periodicOperation_def
      powerWatchDog_fields periodicDue_def remoteDue_def declaresDead_def)

lemma loopPlan_fields [simp]:
  "batteryDead (loopPlan e s) = batteryDead s"
  "batteryCharging (loopPlan e s) = batteryCharging s"
  "periodicOperationsTime (loopPlan e s) = periodicOperationsTime s"
  "initRemoteTime (loopPlan e s) = initRemoteTime s"
  "lowPowerMode (loopPlan e s) = lowPowerMode s"
  "trace (loopPlan e s) = trace s"
  by (simp_all add: loopPlan_def)

lemma loopIdle_fields [simp]:
  "batteryDead (loopIdle e s) = batteryDead s"
  "batteryCharging (loopIdle e s) = batteryCharging s"
  "deepSleepTime (loopIdle e s) = deepSleepTime s"
  "periodicOperationsTime (loopIdle e s) = periodicOperationsTime s"
  "initRemoteTime (loopIdle e s) = initRemoteTime s"
  "lowPowerMode (loopIdle e s) = lowPowerMode s"
  by (simp_all add: loopIdle_def)

lemma inactive_after [simp]:
  "inactive e (loopPlan e s) = inactive e s"
  "inactive e (loopIdle e s) = inactive e s"
  by (simp_all add: inactive_def)


lemma loop_running:
  "\<not> suspended (loop e s) \<Longrightarrow> final (loop e s) = loopIdle e (loopPlan e (loopTimers e s))"
  by (simp add: loop_def Let_def split: if_splits)

lemma loop_suspended_iff: "suspended (loop e s) \<longleftrightarrow> sleepFires e (loopTimers e s)"
  by (simp add: loop_def Let_def)

lemma sint_add_no_overflow:
  fixes m t :: long
  assumes "0 \<le> sint m" "0 \<le> sint t" "sint m + sint t < 2 ^ 31"
  shows "sint (m + t) = sint m + sint t"
proof -
  have "sint (m + t) = signed_take_bit 31 (sint m + sint t)"
    by (simp add: sint_word_ariths)
  also have "\<dots> = sint m + sint t"
    using assms by (simp add: signed_take_bit_int_eq_self)
  finally show ?thesis .
qed

lemma setup_timers:
  "initRemoteTime (setup_sketch b (powerOn lp)) =
     (if initRemoteOnStartup b \<and> \<not> batteryDead (setup_sketch b (powerOn lp))
      then remoteMillis b + REMOTE_INIT_TIMEOUT else 0)"
  "periodicOperationsTime (setup_sketch b (powerOn lp)) =
     (if batteryDead (setup_sketch b (powerOn lp)) then 0
      else periodicMillis b + PERIODIC_OPERATIONS_INTERVAL)"
  by (simp_all add: setup_sketch_def Let_def powerOn_def configure_def)

subsection \<open>Planning deep sleep\<close>




subsection \<open>Entering deep sleep\<close>

text \<open>
  In Dead mode the deadline is out of the reach of the timers and of the planning step:
  an armed one fires in the first iteration that is past it with the petals at rest, and
  an unarmed one stays unarmed.
\<close>

lemma loop_dead_deadline:
  assumes "batteryDead s"
  shows "deepSleepTime (loopTimers e s) = deepSleepTime s"
    and "\<not> suspended (loop e s) \<Longrightarrow>
           batteryDead (final (loop e s)) \<and> deepSleepTime (final (loop e s)) = deepSleepTime s"
proof -
  from assms show timers: "deepSleepTime (loopTimers e s) = deepSleepTime s"
    by (simp add: loopTimers_fields declaresDead_def)
  assume "\<not> suspended (loop e s)"
  then have "final (loop e s) = loopIdle e (loopPlan e (loopTimers e s))"
    by (rule loop_running)
  with assms timers show
    "batteryDead (final (loop e s)) \<and> deepSleepTime (final (loop e s)) = deepSleepTime s"
    by (simp add: loopPlan_def loopTimers_fields)
qed

lemma run_dead_fires:
  "batteryDead s \<Longrightarrow> deepSleepTime s \<noteq> 0 \<Longrightarrow>
   \<exists>e\<in>set es. deepSleepTime s <s now e \<and> \<not> arePetalsMoving e \<Longrightarrow>
     suspended (run es s)"
proof (induction es arbitrary: s)
  case Nil
  then show ?case by simp
next
  case (Cons e es)
  show ?case
  proof (cases "loop e s")
    case (Suspended s')
    then show ?thesis by simp
  next
    case (Running s')
    then have awake: "\<not> suspended (loop e s)" by simp
    with loop_dead_deadline [OF Cons.prems(1), of e] Running
    have s': "batteryDead s'" "deepSleepTime s' = deepSleepTime s"
      "deepSleepTime (loopTimers e s) = deepSleepTime s"
      by simp_all
    from awake s'(3) Cons.prems(2)
    have "\<not> (deepSleepTime s <s now e \<and> \<not> arePetalsMoving e)"
      by (simp add: loop_suspended_iff sleepFires_def)
    with Cons.prems(3)
    have "\<exists>e\<in>set es. deepSleepTime s' <s now e \<and> \<not> arePetalsMoving e"
      by (auto simp add: s'(2))
    with Cons.IH [of s'] s' Cons.prems(2) Running show ?thesis
      by simp
  qed
qed

lemma run_dead_unarmed:
  "batteryDead s \<Longrightarrow> deepSleepTime s = 0 \<Longrightarrow>
     \<not> suspended (run es s) \<and> deepSleepTime (final (run es s)) = 0"
proof (induction es arbitrary: s)
  case Nil
  then show ?case by simp
next
  case (Cons e es)
  from loop_dead_deadline(1) [OF Cons.prems(1), of e] Cons.prems(2)
  have awake: "\<not> suspended (loop e s)"
    by (simp add: loop_suspended_iff sleepFires_def)
  then obtain s' where run: "loop e s = Running s'"
    by (cases "loop e s") simp_all
  with loop_dead_deadline(2) [OF Cons.prems(1) awake] Cons.prems(2)
  have "batteryDead s'" "deepSleepTime s' = 0"
    by simp_all
  with Cons.IH [of s'] run show ?case
    by simp
qed

text \<open>
  C5 as stated fails. With a deadline armed at 5000, the clock at 5000 and nothing moving,
  the iteration does not enter deep sleep and keeps the deadline. And an iteration at
  5000 whose periodic check finds the battery dead arms the deadline with timeout 0, at
  the clock reading 5000, while nothing moves: it does not enter deep sleep either.
\<close>

theorem no_sleep_at_the_deadline:
  "deepSleepTime ((awake 9000)\<lparr>deepSleepTime := 5000\<rparr>) \<noteq> 0 \<and>
   deepSleepTime ((awake 9000)\<lparr>deepSleepTime := 5000\<rparr>) \<le>s now (restTick 5000) \<and>
   \<not> arePetalsMoving (restTick 5000) \<and>
   \<not> suspended (loop (restTick 5000) ((awake 9000)\<lparr>deepSleepTime := 5000\<rparr>)) \<and>
   deepSleepTime (final (loop (restTick 5000) ((awake 9000)\<lparr>deepSleepTime := 5000\<rparr>))) = 5000 \<and>
   periodicDue ((restTick 5000)\<lparr>battery := \<lparr>voltage = 33 / 10, level = 1\<rparr>\<rparr>) (awake 4000) \<and>
   declaresDead ((restTick 5000)\<lparr>battery := \<lparr>voltage = 33 / 10, level = 1\<rparr>\<rparr>) (awake 4000) \<and>
   isIdle ((restTick 5000)\<lparr>battery := \<lparr>voltage = 33 / 10, level = 1\<rparr>\<rparr>) \<and>
   \<not> arePetalsMoving ((restTick 5000)\<lparr>battery := \<lparr>voltage = 33 / 10, level = 1\<rparr>\<rparr>) \<and>
   \<not> suspended (loop ((restTick 5000)\<lparr>battery := \<lparr>voltage = 33 / 10, level = 1\<rparr>\<rparr>) (awake 4000)) \<and>
   deepSleepTime (final (loop ((restTick 5000)\<lparr>battery := \<lparr>voltage = 33 / 10, level = 1\<rparr>\<rparr>)
      (awake 4000))) = 5000"
  by (simp add: sketch_defs constant_defs example_defs)

text \<open>
  C5, amended. An iteration enters deep sleep exactly when, at line 124, a deadline is
  armed, the deadline is strictly before \<open>now\<close> in the signed 32-bit order, and the
  petals are not moving; it then unarms the deadline and calls the suspend action. The
  deadline at line 124 is the one the iteration started with, unless its periodic check
  has just declared the battery dead: then it is the clock reading that
  \<^verbatim>\<open>planDeepSleep(0)\<close> took. When that reading is not before \<open>now\<close> the iteration
  does not enter deep sleep: it ends in Dead mode with the deadline set to that reading.
  If the reading is not 0, the deadline is armed, and every sequence of later iterations
  that has one with \<open>now\<close> strictly after the reading and the petals not moving ends
  in deep sleep. If the reading is 0, no deadline is armed, and no later iteration
  enters deep sleep.
\<close>

theorem sleep_fires_strictly_after_deadline:
  "(suspended (loop e s) \<longleftrightarrow>
      deepSleepTime (loopTimers e s) \<noteq> 0 \<and> deepSleepTime (loopTimers e s) <s now e \<and>
      \<not> arePetalsMoving e) \<and>
   (suspended (loop e s) \<longrightarrow>
      deepSleepTime (final (loop e s)) = 0 \<and>
      trace (final (loop e s)) =
        trace (loopTimers e s) @ [EnableTouchpadWakeup, BtStop, DeepSleepStart]) \<and>
   (\<not> (periodicDue e s \<and> declaresDead e s) \<longrightarrow>
      deepSleepTime (loopTimers e s) = deepSleepTime s) \<and>
   (periodicDue e s \<and> declaresDead e s \<longrightarrow>
      deepSleepTime (loopTimers e s) = deadMillis e) \<and>
   (periodicDue e s \<and> declaresDead e s \<and> now e \<le>s deadMillis e \<longrightarrow>
      \<not> suspended (loop e s) \<and> batteryDead (final (loop e s)) \<and>
      deepSleepTime (final (loop e s)) = deadMillis e) \<and>
   (periodicDue e s \<and> declaresDead e s \<and> now e \<le>s deadMillis e \<and> deadMillis e \<noteq> 0 \<and>
      (\<exists>e'\<in>set es. deadMillis e <s now e' \<and> \<not> arePetalsMoving e') \<longrightarrow>
      suspended (run es (final (loop e s)))) \<and>
   (periodicDue e s \<and> declaresDead e s \<and> now e \<le>s deadMillis e \<and> deadMillis e = 0 \<longrightarrow>
      \<not> suspended (run es (final (loop e s))) \<and>
      deepSleepTime (final (run es (final (loop e s)))) = 0)"
proof -
  have fires: "suspended (loop e s) \<longleftrightarrow>
      deepSleepTime (loopTimers e s) \<noteq> 0 \<and> deepSleepTime (loopTimers e s) <s now e \<and>
      \<not> arePetalsMoving e"
    by (simp add: loop_suspended_iff sleepFires_def)
  have effect: "deepSleepTime (final (loop e s)) = 0 \<and>
      trace (final (loop e s)) =
        trace (loopTimers e s) @ [EnableTouchpadWakeup, BtStop, DeepSleepStart]"
    if "suspended (loop e s)"
    using that by (simp add: loop_def Let_def split: if_splits)
  have kept: "deepSleepTime (loopTimers e s) = deepSleepTime s"
    if "\<not> (periodicDue e s \<and> declaresDead e s)"
    using that by (auto simp add: loopTimers_fields)
  have replaced: "deepSleepTime (loopTimers e s) = deadMillis e"
    if "periodicDue e s \<and> declaresDead e s"
    using that by (simp add: loopTimers_fields)
  have same_tick: "\<not> suspended (loop e s) \<and> batteryDead (final (loop e s)) \<and>
      deepSleepTime (final (loop e s)) = deadMillis e"
    if due: "periodicDue e s \<and> declaresDead e s" and later: "now e \<le>s deadMillis e"
  proof -
    from due have t: "deepSleepTime (loopTimers e s) = deadMillis e"
      "batteryDead (loopTimers e s)"
      by (simp_all add: loopTimers_fields)
    from later have "\<not> deadMillis e <s now e"
      by (simp add: word_sle_eq word_sless_alt)
    with t have awake: "\<not> suspended (loop e s)"
      by (simp add: fires)
    then have "final (loop e s) = loopIdle e (loopPlan e (loopTimers e s))"
      by (rule loop_running)
    with t awake show ?thesis
      by (simp add: loopPlan_def)
  qed
  have later_tick: "suspended (run es (final (loop e s)))"
    if "periodicDue e s \<and> declaresDead e s" "now e \<le>s deadMillis e" "deadMillis e \<noteq> 0"
      "\<exists>e'\<in>set es. deadMillis e <s now e' \<and> \<not> arePetalsMoving e'"
    using same_tick [OF that(1,2)] that(3,4)
    by (intro run_dead_fires) simp_all
  have never: "\<not> suspended (run es (final (loop e s))) \<and>
      deepSleepTime (final (run es (final (loop e s)))) = 0"
    if "periodicDue e s \<and> declaresDead e s" "now e \<le>s deadMillis e" "deadMillis e = 0"
    using same_tick [OF that(1,2)] that(3)
    by (intro run_dead_unarmed) simp_all
  from fires effect kept replaced same_tick later_tick never show ?thesis
    by blast
qed

theorem sleep_fires_strictly_after_deadline_witness:
  "suspended (loop (restTick 5001) ((awake 9000)\<lparr>deepSleepTime := 5000\<rparr>)) \<and>
   deepSleepTime (final (loop (restTick 5001) ((awake 9000)\<lparr>deepSleepTime := 5000\<rparr>))) = 0 \<and>
   trace (final (loop (restTick 5001) ((awake 9000)\<lparr>deepSleepTime := 5000\<rparr>))) =
     [FloowerUpdate, EnableTouchpadWakeup, BtStop, DeepSleepStart] \<and>
   \<not> periodicDue (restTick 5001) ((awake 9000)\<lparr>deepSleepTime := 5000\<rparr>) \<and>
   deepSleepTime (loopTimers (restTick 5001) ((awake 9000)\<lparr>deepSleepTime := 5000\<rparr>)) = 5000 \<and>
   periodicDue ((restTick 5000)\<lparr>battery := \<lparr>voltage = 33 / 10, level = 1\<rparr>\<rparr>) (awake 4000) \<and>
   declaresDead ((restTick 5000)\<lparr>battery := \<lparr>voltage = 33 / 10, level = 1\<rparr>\<rparr>) (awake 4000) \<and>
   now ((restTick 5000)\<lparr>battery := \<lparr>voltage = 33 / 10, level = 1\<rparr>\<rparr>) \<le>s
     deadMillis ((restTick 5000)\<lparr>battery := \<lparr>voltage = 33 / 10, level = 1\<rparr>\<rparr>) \<and>
   \<not> suspended (loop ((restTick 5000)\<lparr>battery := \<lparr>voltage = 33 / 10, level = 1\<rparr>\<rparr>) (awake 4000)) \<and>
   batteryDead (final (loop ((restTick 5000)\<lparr>battery := \<lparr>voltage = 33 / 10, level = 1\<rparr>\<rparr>)
     (awake 4000))) \<and>
   deepSleepTime (final (loop ((restTick 5000)\<lparr>battery := \<lparr>voltage = 33 / 10, level = 1\<rparr>\<rparr>)
     (awake 4000))) = 5000 \<and>
   deadMillis ((restTick 5000)\<lparr>battery := \<lparr>voltage = 33 / 10, level = 1\<rparr>\<rparr>) \<noteq> 0 \<and>
   deadMillis ((restTick 5000)\<lparr>battery := \<lparr>voltage = 33 / 10, level = 1\<rparr>\<rparr>) <s
     now (restTick 5001) \<and>
   \<not> arePetalsMoving (restTick 5001) \<and>
   suspended (run [(restTick 5001)\<lparr>arePetalsMoving := True\<rparr>, restTick 5001]
     (final (loop ((restTick 5000)\<lparr>battery := \<lparr>voltage = 33 / 10, level = 1\<rparr>\<rparr>)
        (awake 4000)))) \<and>
   periodicDue ((restTick 4294967295)\<lparr>battery := \<lparr>voltage = 33 / 10, level = 1\<rparr>, deadMillis := 0\<rparr>)
     (awake 4294960000) \<and>
   declaresDead ((restTick 4294967295)\<lparr>battery := \<lparr>voltage = 33 / 10, level = 1\<rparr>, deadMillis := 0\<rparr>)
     (awake 4294960000) \<and>
   now ((restTick 4294967295)\<lparr>battery := \<lparr>voltage = 33 / 10, level = 1\<rparr>, deadMillis := 0\<rparr>) \<le>s
     deadMillis ((restTick 4294967295)\<lparr>battery := \<lparr>voltage = 33 / 10, level = 1\<rparr>, deadMillis := 0\<rparr>) \<and>
   deadMillis ((restTick 4294967295)\<lparr>battery := \<lparr>voltage = 33 / 10, level = 1\<rparr>, deadMillis := 0\<rparr>)
     = 0 \<and>
   \<not> suspended (run [restTick 1, restTick 100000]
     (final (loop
        ((restTick 4294967295)\<lparr>battery := \<lparr>voltage = 33 / 10, level = 1\<rparr>, deadMillis := 0\<rparr>)
        (awake 4294960000))))"
proof -
  let ?dying = "(restTick 5000)\<lparr>battery := \<lparr>voltage = 33 / 10, level = 1\<rparr>\<rparr>"
  let ?wrapped =
    "(restTick 4294967295)\<lparr>battery := \<lparr>voltage = 33 / 10, level = 1\<rparr>, deadMillis := 0\<rparr>"
  let ?later = "[(restTick 5001)\<lparr>arePetalsMoving := True\<rparr>, restTick 5001]"
  note fired = sleep_fires_strictly_after_deadline
    [of "restTick 5001" "(awake 9000)\<lparr>deepSleepTime := 5000\<rparr>" "[]"]
  note dying = sleep_fires_strictly_after_deadline [of ?dying "awake 4000" ?later]
  note wrapped = sleep_fires_strictly_after_deadline
    [of ?wrapped "awake 4294960000" "[restTick 1, restTick 100000]"]
  have timers: "loopTimers (restTick 5001) ((awake 9000)\<lparr>deepSleepTime := 5000\<rparr>) =
      (awake 9000)\<lparr>deepSleepTime := 5000, trace := [FloowerUpdate]\<rparr>"
    and not_due: "\<not> periodicDue (restTick 5001) ((awake 9000)\<lparr>deepSleepTime := 5000\<rparr>)"
    by (simp_all add: sketch_defs constant_defs example_defs)
  have due: "periodicDue ?dying (awake 4000)" "declaresDead ?dying (awake 4000)"
    "now ?dying \<le>s deadMillis ?dying" "deadMillis ?dying \<noteq> 0"
    "deadMillis ?dying <s now (restTick 5001)" "\<not> arePetalsMoving (restTick 5001)"
    and due': "periodicDue ?wrapped (awake 4294960000)"
    "declaresDead ?wrapped (awake 4294960000)"
    "now ?wrapped \<le>s deadMillis ?wrapped" "deadMillis ?wrapped = 0"
    by (simp_all add: sketch_defs constant_defs example_defs word_sle_eq)
  from due have "\<exists>e'\<in>set ?later. deadMillis ?dying <s now e' \<and> \<not> arePetalsMoving e'"
    by simp
  with dying due have sleeps: "suspended (run ?later (final (loop ?dying (awake 4000))))"
    by blast
  from wrapped due' have stays: "\<not> suspended (run [restTick 1, restTick 100000]
      (final (loop ?wrapped (awake 4294960000))))"
    by blast
  from dying due have same: "\<not> suspended (loop ?dying (awake 4000))"
    "batteryDead (final (loop ?dying (awake 4000)))"
    "deepSleepTime (final (loop ?dying (awake 4000))) = deadMillis ?dying"
    by blast+
  from same(3) have deadline: "deepSleepTime (final (loop ?dying (awake 4000))) = 5000"
    by (simp add: restTick_def)
  from fired not_due
  have kept: "deepSleepTime (loopTimers (restTick 5001) ((awake 9000)\<lparr>deepSleepTime := 5000\<rparr>))
      = deepSleepTime ((awake 9000)\<lparr>deepSleepTime := 5000\<rparr>)"
    by blast
  then have kept': "deepSleepTime (loopTimers (restTick 5001)
      ((awake 9000)\<lparr>deepSleepTime := 5000\<rparr>)) = 5000"
    by simp
  with fired have fire: "suspended (loop (restTick 5001) ((awake 9000)\<lparr>deepSleepTime := 5000\<rparr>))"
    by (simp add: restTick_def)
  with fired have "deepSleepTime (final (loop (restTick 5001)
        ((awake 9000)\<lparr>deepSleepTime := 5000\<rparr>))) = 0"
    "trace (final (loop (restTick 5001) ((awake 9000)\<lparr>deepSleepTime := 5000\<rparr>))) =
      trace (loopTimers (restTick 5001) ((awake 9000)\<lparr>deepSleepTime := 5000\<rparr>)) @
        [EnableTouchpadWakeup, BtStop, DeepSleepStart]"
    by blast+
  then have effect: "deepSleepTime (final (loop (restTick 5001)
        ((awake 9000)\<lparr>deepSleepTime := 5000\<rparr>))) = 0"
    "trace (final (loop (restTick 5001) ((awake 9000)\<lparr>deepSleepTime := 5000\<rparr>))) =
      [FloowerUpdate, EnableTouchpadWakeup, BtStop, DeepSleepStart]"
    by (simp_all add: timers)
  from fire effect not_due kept' due(1-3) same(1,2) deadline due(4-6) sleeps due' stays
  show ?thesis
    by (intro conjI)
qed

subsection \<open>The deferred initialisation of the remote\<close>

lemma powerWatchDog_remote:
  "filter remoteEvent (trace (powerWatchDog e s)) = filter remoteEvent (trace s)"
  by (simp add: powerWatchDog_def powerWatchDogWith_def Let_def)

lemma loopTimers_remote:
  "filter remoteEvent (trace (loopTimers e s)) =
     filter remoteEvent (trace s) @ (if remoteDue e s then [RemoteInit, StartAdvertising] else [])"
  by (simp add: loopTimers_def loopPeriodic_def loopInitRemote_def periodicOperation_def
      powerWatchDog_remote powerWatchDog_fields remoteDue_def)

lemma loop_remote:
  "filter remoteEvent (trace (final (loop e s))) =
     filter remoteEvent (trace s) @ (if remoteDue e s then [RemoteInit, StartAdvertising] else [])"
  "initRemoteTime (final (loop e s)) = (if remoteDue e s then 0 else initRemoteTime s)"
  by (simp_all add: loop_def Let_def loopTimers_remote loopTimers_fields loopIdle_def)

lemma run_remote_unarmed:
  "initRemoteTime s = 0 \<Longrightarrow>
     filter remoteEvent (trace (final (run es s))) = filter remoteEvent (trace s) \<and>
     initRemoteTime (final (run es s)) = 0"
proof (induction es arbitrary: s)
  case Nil
  then show ?case by simp
next
  case (Cons e es)
  then have idle: "\<not> remoteDue e s" by (simp add: remoteDue_def)
  show ?case
  proof (cases "loop e s")
    case (Running s')
    with loop_remote [of e s] idle Cons.prems
    have "initRemoteTime s' = 0" "filter remoteEvent (trace s') = filter remoteEvent (trace s)"
      by simp_all
    with Cons.IH [of s'] Running show ?thesis by simp
  next
    case (Suspended s')
    with loop_remote [of e s] idle Cons.prems show ?thesis by simp
  qed
qed

lemma run_remote_once:
  "filter remoteEvent (trace (final (run es s))) = filter remoteEvent (trace s) \<and>
     initRemoteTime (final (run es s)) = initRemoteTime s \<or>
   filter remoteEvent (trace (final (run es s))) =
     filter remoteEvent (trace s) @ [RemoteInit, StartAdvertising] \<and>
     initRemoteTime (final (run es s)) = 0 \<and> initRemoteTime s \<noteq> 0"
proof (induction es arbitrary: s)
  case Nil
  show ?case by simp
next
  case (Cons e es)
  show ?case
  proof (cases "loop e s")
    case (Suspended s')
    with loop_remote [of e s] show ?thesis by (auto simp add: remoteDue_def)
  next
    case (Running s')
    show ?thesis
    proof (cases "remoteDue e s")
      case True
      with loop_remote [of e s] Running
      have s': "initRemoteTime s' = 0"
        "filter remoteEvent (trace s') =
           filter remoteEvent (trace s) @ [RemoteInit, StartAdvertising]"
        by simp_all
      from True have "initRemoteTime s \<noteq> 0" by (simp add: remoteDue_def)
      with run_remote_unarmed [OF s'(1), of es] s' Running show ?thesis by simp
    next
      case False
      with loop_remote [of e s] Running
      have "initRemoteTime s' = initRemoteTime s"
        "filter remoteEvent (trace s') = filter remoteEvent (trace s)"
        by simp_all
      with Cons.IH [of s'] Running show ?thesis by simp
    qed
  qed
qed

text \<open>
  C9 as stated fails: the configuration requests the deferred initialisation, the
  boot-time check finds the battery dead (3.3 V twice), and the process runs until it
  enters deep sleep at 5101 ms without having initialised the remote.
\<close>

theorem dead_boot_never_initialises_remote:
  "initRemoteOnStartup (bootAt 100 (33 / 10)) \<and>
   suspended (run [restTick 1000, restTick 2101, restTick 3000, restTick 4000, restTick 5000,
                   restTick 5101] (setup_sketch (bootAt 100 (33 / 10)) (powerOn False))) \<and>
   RemoteInit \<notin> set (trace (final
     (run [restTick 1000, restTick 2101, restTick 3000, restTick 4000, restTick 5000,
           restTick 5101] (setup_sketch (bootAt 100 (33 / 10)) (powerOn False)))))"
  by (simp add: sketch_defs constant_defs example_defs)

text \<open>
  C9, amended. \<^verbatim>\<open>setup\<close> arms the timer, at its clock reading plus
  \<open>REMOTE_INIT_TIMEOUT\<close>, when the configuration requests it and the battery is not
  found dead, and leaves it unarmed otherwise; it does not initialise the remote itself.
  An iteration whose \<open>now\<close> is strictly after an armed timer (signed 32-bit order)
  initialises the remote, then starts advertising, and clears the timer; any other
  iteration does neither and leaves the timer as it is. When the timer was armed at a
  clock reading \<open>m\<close> (non-negative, no overflow), the firing iteration's \<open>now\<close> is
  more than 2000 ms after \<open>m\<close>. Once the timer is unarmed, no further iteration
  initialises the remote or arms it again; so over the iterations of a process the two
  calls are made at most once.
\<close>

theorem deferred_init_at_most_once:
  "initRemoteTime (setup_sketch b (powerOn lp)) =
     (if initRemoteOnStartup b \<and> \<not> batteryDead (setup_sketch b (powerOn lp))
      then remoteMillis b + REMOTE_INIT_TIMEOUT else 0) \<and>
   filter remoteEvent (trace (setup_sketch b (powerOn lp))) = [] \<and>
   (remoteDue e s \<longrightarrow>
      filter remoteEvent (trace (final (loop e s))) =
        filter remoteEvent (trace s) @ [RemoteInit, StartAdvertising] \<and>
      initRemoteTime (final (loop e s)) = 0) \<and>
   (\<not> remoteDue e s \<longrightarrow>
      filter remoteEvent (trace (final (loop e s))) = filter remoteEvent (trace s) \<and>
      initRemoteTime (final (loop e s)) = initRemoteTime s) \<and>
   (remoteDue e s \<and> initRemoteTime s = m + REMOTE_INIT_TIMEOUT \<and> 0 \<le> sint m \<and>
      sint m + 2000 < 2 ^ 31 \<longrightarrow> sint m + 2000 < sint (now e)) \<and>
   (initRemoteTime s = 0 \<longrightarrow>
      filter remoteEvent (trace (final (run es s))) = filter remoteEvent (trace s) \<and>
      initRemoteTime (final (run es s)) = 0) \<and>
   (filter remoteEvent (trace (final (run es s))) = filter remoteEvent (trace s) \<or>
    filter remoteEvent (trace (final (run es s))) =
      filter remoteEvent (trace s) @ [RemoteInit, StartAdvertising] \<and>
    initRemoteTime (final (run es s)) = 0)"
proof -
  have boot: "filter remoteEvent (trace (setup_sketch b (powerOn lp))) = []"
    by (simp add: setup_sketch_def Let_def powerOn_def configure_def)
  have late: "sint m + 2000 < sint (now e)"
    if "remoteDue e s" "initRemoteTime s = m + REMOTE_INIT_TIMEOUT" "0 \<le> sint m"
      "sint m + 2000 < 2 ^ 31"
  proof -
    have "sint (m + REMOTE_INIT_TIMEOUT) = sint m + sint REMOTE_INIT_TIMEOUT"
      using that(3,4) by (intro sint_add_no_overflow) (simp_all add: REMOTE_INIT_TIMEOUT_def)
    with that(1,2) show ?thesis
      by (simp add: remoteDue_def word_sless_alt REMOTE_INIT_TIMEOUT_def)
  qed
  from boot late setup_timers(1) [of b lp] loop_remote [of e s] run_remote_unarmed [of s es]
    run_remote_once [of es s]
  show ?thesis
    by (simp (no_asm_simp)) blast
qed

theorem deferred_init_at_most_once_witness:
  "initRemoteTime (setup_sketch (bootAt 100 4) (powerOn False)) = 2100 \<and>
   remoteDue (restTick 2101) (setup_sketch (bootAt 100 4) (powerOn False)) \<and>
   initRemoteTime (setup_sketch (bootAt 100 4) (powerOn False)) = 100 + REMOTE_INIT_TIMEOUT \<and>
   0 \<le> sint (100 :: long) \<and> sint (100 :: long) + 2000 < 2 ^ 31 \<and>
   sint (100 :: long) + 2000 < sint (now (restTick 2101)) \<and>
   filter remoteEvent (trace (final (loop (restTick 2101)
      (setup_sketch (bootAt 100 4) (powerOn False))))) = [RemoteInit, StartAdvertising] \<and>
   initRemoteTime (final (loop (restTick 2101) (setup_sketch (bootAt 100 4) (powerOn False)))) = 0 \<and>
   \<not> remoteDue (restTick 2100) (setup_sketch (bootAt 100 4) (powerOn False)) \<and>
   filter remoteEvent (trace (final (loop (restTick 2100)
      (setup_sketch (bootAt 100 4) (powerOn False))))) = [] \<and>
   initRemoteTime (final (loop (restTick 2100) (setup_sketch (bootAt 100 4) (powerOn False)))) = 2100 \<and>
   initRemoteTime (awake 4000) = 0 \<and>
   filter remoteEvent (trace (final (run [restTick 3000, restTick 5000] (awake 4000)))) = [] \<and>
   initRemoteTime (final (run [restTick 3000, restTick 5000] (awake 4000))) = 0"
proof -
  have armed: "initRemoteTime (setup_sketch (bootAt 100 4) (powerOn False)) = 2100"
    and idle: "filter remoteEvent (trace (setup_sketch (bootAt 100 4) (powerOn False))) = []"
    by (simp_all add: sketch_defs constant_defs example_defs)
  then have due: "remoteDue (restTick 2101) (setup_sketch (bootAt 100 4) (powerOn False))"
    "\<not> remoteDue (restTick 2100) (setup_sketch (bootAt 100 4) (powerOn False))"
    "initRemoteTime (setup_sketch (bootAt 100 4) (powerOn False)) = 100 + REMOTE_INIT_TIMEOUT"
    by (simp_all add: remoteDue_def restTick_def REMOTE_INIT_TIMEOUT_def)
  have unarmed: "initRemoteTime (awake 4000) = 0" "filter remoteEvent (trace (awake 4000)) = []"
    by (simp_all add: example_defs)
  from deferred_init_at_most_once
      [of "bootAt 100 4" False "restTick 2101" "setup_sketch (bootAt 100 4) (powerOn False)" 100 "[]"]
    deferred_init_at_most_once
      [of "bootAt 100 4" False "restTick 2100" "setup_sketch (bootAt 100 4) (powerOn False)" 0 "[]"]
    deferred_init_at_most_once
      [of "bootAt 100 4" False "restTick 2100" "awake 4000" 0 "[restTick 3000, restTick 5000]"]
    armed idle due unarmed
  show ?thesis
    by simp
qed


subsection \<open>The watchdog\<close>

lemma powerWatchDog_wdt:
  "filter wdtEvent (trace (powerWatchDog e s)) = filter wdtEvent (trace s)"
  by (simp add: powerWatchDog_def powerWatchDogWith_def Let_def)

lemma loopTimers_wdt:
  "filter wdtEvent (trace (loopTimers e s)) =
     filter wdtEvent (trace s) @ (if periodicDue e s then [WdtReset] else [])"
  by (simp add: loopTimers_def loopPeriodic_def loopInitRemote_def periodicOperation_def
      powerWatchDog_wdt periodicDue_def)

lemma loop_wdt:
  "filter wdtEvent (trace (final (loop e s))) =
     filter wdtEvent (trace s) @ (if periodicDue e s then [WdtReset] else [])"
  "periodicOperationsTime (final (loop e s)) =
     (if periodicDue e s then now e + PERIODIC_OPERATIONS_INTERVAL else periodicOperationsTime s)"
  by (simp_all add: loop_def Let_def loopTimers_wdt loopTimers_fields loopIdle_def)

lemma run_wdt_count:
  "filter wdtEvent (trace (final (run es s))) =
     filter wdtEvent (trace s) @ replicate (length (resetTimes es s)) WdtReset"
proof (induction es arbitrary: s)
  case Nil
  show ?case by simp
next
  case (Cons e es)
  show ?case
  proof (cases "loop e s")
    case (Running s')
    with loop_wdt(1) [of e s] Cons.IH [of s'] show ?thesis
      by (simp add: replicate_app_Cons_same)
  next
    case (Suspended s')
    with loop_wdt(1) [of e s] show ?thesis by simp
  qed
qed

lemma run_wdt_unarmed:
  "periodicOperationsTime s = 0 \<Longrightarrow> resetTimes es s = []"
proof (induction es arbitrary: s)
  case Nil
  show ?case by simp
next
  case (Cons e es)
  then have "\<not> periodicDue e s" by (simp add: periodicDue_def)
  with loop_wdt(2) [of e s] Cons show ?case
    by (cases "loop e s") simp_all
qed

lemma sint_interval: "sint PERIODIC_OPERATIONS_INTERVAL = 3000"
  by (simp add: PERIODIC_OPERATIONS_INTERVAL_def)

text \<open>
  The invariant of a paced run: the periodic timer is armed 3000 ms after the clock
  reading \<open>r\<close> of the last arming, and the last iteration started at \<open>t\<close>, not after
  the timer.
\<close>

lemma reset_gaps:
  "periodicOperationsTime s = r + PERIODIC_OPERATIONS_INTERVAL \<Longrightarrow> 0 \<le> sint r \<Longrightarrow>
   sint r \<le> t \<Longrightarrow> t \<le> sint r + 3000 \<Longrightarrow> sint r + 3000 < 2 ^ 31 \<Longrightarrow> 0 \<le> d \<Longrightarrow>
   paced d t es \<Longrightarrow>
     spaced (3000 + d) (sint r) (resetTimes es s)"
proof (induction es arbitrary: s r t)
  case Nil
  show ?case by simp
next
  case (Cons e es)
  from Cons.prems have p: "sint (periodicOperationsTime s) = sint r + 3000"
    by (simp add: sint_add_no_overflow sint_interval)
  with Cons.prems have armed: "periodicOperationsTime s \<noteq> 0"
    by auto
  from Cons.prems have pace: "t \<le> sint (now e)" "sint (now e) \<le> t + d"
    "sint (now e) + 3000 < 2 ^ 31" "paced d (sint (now e)) es"
    by (simp_all add: sint_interval)
  show ?case
  proof (cases "periodicDue e s")
    case True
    with p have late: "sint r + 3000 < sint (now e)"
      by (simp add: periodicDue_def word_sless_alt)
    from pace Cons.prems have near: "sint (now e) \<le> sint r + (3000 + d)"
      by simp
    have rest: "spaced (3000 + d) (sint (now e)) (resetTimes es s')"
      if "loop e s = Running s'" for s'
    proof -
      from that True loop_wdt(2) [of e s]
      have "periodicOperationsTime s' = now e + PERIODIC_OPERATIONS_INTERVAL" by simp
      moreover from late Cons.prems have "0 \<le> sint (now e)" by simp
      ultimately show ?thesis
        using pace Cons.prems(6) by (intro Cons.IH [of s' "now e" "sint (now e)"]) simp_all
    qed
    with True late near show ?thesis
      by (cases "loop e s") (simp_all add: sint_interval)
  next
    case False
    with armed p have early: "sint (now e) \<le> sint r + 3000"
      by (simp add: periodicDue_def word_sless_alt)
    have rest: "spaced (3000 + d) (sint r) (resetTimes es s')"
      if "loop e s = Running s'" for s'
    proof -
      from that False loop_wdt(2) [of e s] Cons.prems(1)
      have "periodicOperationsTime s' = r + PERIODIC_OPERATIONS_INTERVAL" by simp
      moreover from pace Cons.prems have "sint r \<le> sint (now e)" by simp
      ultimately show ?thesis
        using pace early Cons.prems by (intro Cons.IH [of s' r "sint (now e)"]) simp_all
    qed
    with False show ?thesis
      by (cases "loop e s") simp_all
  qed
qed

lemma spaced_mono: "spaced g r xs \<Longrightarrow> g \<le> g' \<Longrightarrow> spaced g' r xs"
  by (induction xs arbitrary: r) auto

text \<open>
  A run that does not enter deep sleep and has an iteration past the armed timer resets
  the watchdog; and after each iteration of a paced run, the clock is no more than the
  interval past the reading of the latest reset (of \<open>r\<close>, before the first).
\<close>

lemma run_resets:
  "periodicOperationsTime s \<noteq> 0 \<Longrightarrow> \<exists>e\<in>set es. periodicOperationsTime s <s now e \<Longrightarrow>
   \<not> suspended (run es s) \<Longrightarrow> resetTimes es s \<noteq> []"
proof (induction es arbitrary: s)
  case Nil
  then show ?case by simp
next
  case (Cons e es)
  show ?case
  proof (cases "periodicDue e s")
    case True
    then show ?thesis by simp
  next
    case False
    from Cons.prems(3) obtain s' where run: "loop e s = Running s'"
      by (cases "loop e s") simp_all
    with False loop_wdt(2) [of e s]
    have same: "periodicOperationsTime s' = periodicOperationsTime s"
      by simp
    from False Cons.prems(1) have "\<not> periodicOperationsTime s <s now e"
      by (simp add: periodicDue_def)
    with Cons.prems(2) have "\<exists>e\<in>set es. periodicOperationsTime s' <s now e"
      by (auto simp add: same)
    with Cons.IH [of s'] Cons.prems run same False show ?thesis
      by simp
  qed
qed

lemma reset_cover:
  "periodicOperationsTime s = r + PERIODIC_OPERATIONS_INTERVAL \<Longrightarrow> 0 \<le> sint r \<Longrightarrow>
   sint r \<le> t \<Longrightarrow> t \<le> sint r + 3000 \<Longrightarrow> sint r + 3000 < 2 ^ 31 \<Longrightarrow>
   paced d t es \<Longrightarrow> \<not> suspended (run es s) \<Longrightarrow>
     (if es = [] then t else sint (now (last es))) \<le> sint (last (r # resetTimes es s)) + 3000"
proof (induction es arbitrary: s r t)
  case Nil
  then show ?case by simp
next
  case (Cons e es)
  from Cons.prems have p: "sint (periodicOperationsTime s) = sint r + 3000"
    by (simp add: sint_add_no_overflow sint_interval)
  with Cons.prems have armed: "periodicOperationsTime s \<noteq> 0"
    by auto
  from Cons.prems have pace: "t \<le> sint (now e)" "sint (now e) + 3000 < 2 ^ 31"
    "paced d (sint (now e)) es"
    by (simp_all add: sint_interval)
  from Cons.prems(7) obtain s' where run: "loop e s = Running s'"
    by (cases "loop e s") simp_all
  with Cons.prems(7) have rest: "\<not> suspended (run es s')"
    by simp
  show ?case
  proof (cases "periodicDue e s")
    case True
    with p have late: "sint r + 3000 < sint (now e)"
      by (simp add: periodicDue_def word_sless_alt)
    from run True loop_wdt(2) [of e s]
    have "periodicOperationsTime s' = now e + PERIODIC_OPERATIONS_INTERVAL" by simp
    moreover from late Cons.prems have "0 \<le> sint (now e)" by simp
    ultimately have "(if es = [] then sint (now e) else sint (now (last es)))
        \<le> sint (last (now e # resetTimes es s')) + 3000"
      using pace rest by (intro Cons.IH [of s' "now e" "sint (now e)"]) simp_all
    with True run show ?thesis
      by (auto split: if_splits)
  next
    case False
    with armed p have early: "sint (now e) \<le> sint r + 3000"
      by (simp add: periodicDue_def word_sless_alt)
    from run False loop_wdt(2) [of e s] Cons.prems(1)
    have "periodicOperationsTime s' = r + PERIODIC_OPERATIONS_INTERVAL" by simp
    moreover from pace Cons.prems have "sint r \<le> sint (now e)" by simp
    ultimately have "(if es = [] then sint (now e) else sint (now (last es)))
        \<le> sint (last (r # resetTimes es s')) + 3000"
      using pace early rest Cons.prems by (intro Cons.IH [of s' r "sint (now e)"]) simp_all
    with False run show ?thesis
      by (auto split: if_splits)
  qed
qed

text \<open>
  C8 as stated fails: when the boot-time check finds the battery dead, \<^verbatim>\<open>setup\<close>
  leaves the periodic timer unarmed, and the iterations up to 5000 ms, none of which
  enters deep sleep, never reset the watchdog.
\<close>

theorem dead_boot_never_resets_watchdog:
  "\<not> suspended (run [restTick 1000, restTick 2000, restTick 3000, restTick 4000, restTick 5000]
      (setup_sketch (bootAt 100 (33 / 10)) (powerOn False))) \<and>
   WdtReset \<notin> set (trace (final
     (run [restTick 1000, restTick 2000, restTick 3000, restTick 4000, restTick 5000]
        (setup_sketch (bootAt 100 (33 / 10)) (powerOn False)))))"
  by (simp add: sketch_defs constant_defs example_defs)

text \<open>
  C8, amended. \<^verbatim>\<open>setup\<close> arms the periodic timer, at its clock reading plus
  \<open>PERIODIC_OPERATIONS_INTERVAL\<close>, unless it finds the battery dead; then the timer
  stays unarmed and no iteration resets the watchdog. An iteration resets the watchdog,
  once, exactly when its \<open>now\<close> is strictly after the armed timer (signed 32-bit
  order), and then re-arms the timer at \<open>now\<close> plus the interval. A run that does not
  enter deep sleep and has an iteration whose \<open>now\<close> is strictly after the armed
  timer resets the watchdog at least once. With the timer armed at a clock reading
  \<open>r\<close> plus the interval, over iterations that follow one another by at most \<open>d\<close>
  ms, below the signed limit of the clock: each watchdog reset comes more than 3000 ms
  and at most \<open>3000 + d\<close> ms after the one before (the first after \<open>r\<close>), which
  is less than the watchdog timeout when \<open>3000 + d\<close> is; and as
  long as the run does not enter deep sleep, the last iteration's \<open>now\<close> is at most
  3000 ms after the latest reset (after \<open>r\<close>, if there was none), so the resets do
  not stop. The watchdog timeout, \<open>WDT_TIMEOUT\<close> seconds, is longer than the
  interval.
\<close>

theorem watchdog_reset_gaps:
  "periodicOperationsTime (setup_sketch b (powerOn lp)) =
     (if batteryDead (setup_sketch b (powerOn lp)) then 0
      else periodicMillis b + PERIODIC_OPERATIONS_INTERVAL) \<and>
   filter wdtEvent (trace (final (loop e s))) =
     filter wdtEvent (trace s) @ (if periodicDue e s then [WdtReset] else []) \<and>
   periodicOperationsTime (final (loop e s)) =
     (if periodicDue e s then now e + PERIODIC_OPERATIONS_INTERVAL
      else periodicOperationsTime s) \<and>
   filter wdtEvent (trace (final (run es s))) =
     filter wdtEvent (trace s) @ replicate (length (resetTimes es s)) WdtReset \<and>
   (periodicOperationsTime s = 0 \<longrightarrow> resetTimes es s = []) \<and>
   (periodicOperationsTime s \<noteq> 0 \<and> (\<exists>e'\<in>set es. periodicOperationsTime s <s now e') \<and>
      \<not> suspended (run es s) \<longrightarrow> resetTimes es s \<noteq> []) \<and>
   (periodicOperationsTime s = r + PERIODIC_OPERATIONS_INTERVAL \<and> 0 \<le> sint r \<and>
      sint r + sint PERIODIC_OPERATIONS_INTERVAL < 2 ^ 31 \<and> 0 \<le> d \<and> paced d (sint r) es \<longrightarrow>
      spaced (sint PERIODIC_OPERATIONS_INTERVAL + d) (sint r) (resetTimes es s)) \<and>
   (periodicOperationsTime s = r + PERIODIC_OPERATIONS_INTERVAL \<and> 0 \<le> sint r \<and>
      sint r + sint PERIODIC_OPERATIONS_INTERVAL < 2 ^ 31 \<and> 0 \<le> d \<and> paced d (sint r) es \<and>
      sint PERIODIC_OPERATIONS_INTERVAL + d < int (WDT_TIMEOUT * 1000) \<longrightarrow>
      spaced (int (WDT_TIMEOUT * 1000) - 1) (sint r) (resetTimes es s)) \<and>
   (periodicOperationsTime s = r + PERIODIC_OPERATIONS_INTERVAL \<and> 0 \<le> sint r \<and>
      sint r + sint PERIODIC_OPERATIONS_INTERVAL < 2 ^ 31 \<and> paced d (sint r) es \<and>
      es \<noteq> [] \<and> \<not> suspended (run es s) \<longrightarrow>
      sint (now (last es)) \<le>
        sint (last (r # resetTimes es s)) + sint PERIODIC_OPERATIONS_INTERVAL) \<and>
   sint PERIODIC_OPERATIONS_INTERVAL < int (WDT_TIMEOUT * 1000)"
proof -
  have gaps: "spaced (sint PERIODIC_OPERATIONS_INTERVAL + d) (sint r) (resetTimes es s)"
    if "periodicOperationsTime s = r + PERIODIC_OPERATIONS_INTERVAL" "0 \<le> sint r"
      "sint r + sint PERIODIC_OPERATIONS_INTERVAL < 2 ^ 31" "0 \<le> d" "paced d (sint r) es"
    using reset_gaps [of s r "sint r" d es] that by (simp add: sint_interval)
  have timely: "spaced (int (WDT_TIMEOUT * 1000) - 1) (sint r) (resetTimes es s)"
    if "periodicOperationsTime s = r + PERIODIC_OPERATIONS_INTERVAL" "0 \<le> sint r"
      "sint r + sint PERIODIC_OPERATIONS_INTERVAL < 2 ^ 31" "0 \<le> d" "paced d (sint r) es"
      "sint PERIODIC_OPERATIONS_INTERVAL + d < int (WDT_TIMEOUT * 1000)"
    using that(6) by (intro spaced_mono [OF gaps [OF that(1-5)]]) simp
  have cover: "sint (now (last es)) \<le>
      sint (last (r # resetTimes es s)) + sint PERIODIC_OPERATIONS_INTERVAL"
    if "periodicOperationsTime s = r + PERIODIC_OPERATIONS_INTERVAL" "0 \<le> sint r"
      "sint r + sint PERIODIC_OPERATIONS_INTERVAL < 2 ^ 31" "paced d (sint r) es"
      "es \<noteq> []" "\<not> suspended (run es s)"
    using reset_cover [of s r "sint r" d es] that by (simp add: sint_interval)
  have live: "resetTimes es s \<noteq> []"
    if "periodicOperationsTime s \<noteq> 0" "\<exists>e'\<in>set es. periodicOperationsTime s <s now e'"
      "\<not> suspended (run es s)"
    using that by (rule run_resets)
  have longer: "sint PERIODIC_OPERATIONS_INTERVAL < int (WDT_TIMEOUT * 1000)"
    by (simp add: WDT_TIMEOUT_def sint_interval)
  from gaps timely cover live longer setup_timers(2) [of b lp] loop_wdt [of e s]
    run_wdt_count [of es s] run_wdt_unarmed [of s es]
  show ?thesis
    by blast
qed

theorem watchdog_reset_gaps_witness:
  "periodicOperationsTime (setup_sketch (bootAt 100 4) (powerOn False)) =
     100 + PERIODIC_OPERATIONS_INTERVAL \<and>
   periodicOperationsTime (setup_sketch (bootAt 100 4) (powerOn False)) \<noteq> 0 \<and>
   periodicOperationsTime (setup_sketch (bootAt 100 4) (powerOn False)) <s now (restTick 4000) \<and>
   0 \<le> sint (100 :: long) \<and> sint (100 :: long) + sint PERIODIC_OPERATIONS_INTERVAL < 2 ^ 31 \<and>
   paced 1500 (sint (100 :: long))
     [restTick 1000, restTick 2500, restTick 4000, restTick 5500, restTick 7000, restTick 7001,
      restTick 8500] \<and>
   \<not> suspended (run
     [restTick 1000, restTick 2500, restTick 4000, restTick 5500, restTick 7000, restTick 7001,
      restTick 8500] (setup_sketch (bootAt 100 4) (powerOn False))) \<and>
   resetTimes
     [restTick 1000, restTick 2500, restTick 4000, restTick 5500, restTick 7000, restTick 7001,
      restTick 8500] (setup_sketch (bootAt 100 4) (powerOn False)) = [4000, 7001] \<and>
   spaced (sint PERIODIC_OPERATIONS_INTERVAL + 1500) (sint (100 :: long)) [4000, 7001] \<and>
   sint PERIODIC_OPERATIONS_INTERVAL + 1500 < int (WDT_TIMEOUT * 1000) \<and>
   spaced (int (WDT_TIMEOUT * 1000) - 1) (sint (100 :: long)) [4000, 7001] \<and>
   sint (now (last
     [restTick 1000, restTick 2500, restTick 4000, restTick 5500, restTick 7000, restTick 7001,
      restTick 8500])) \<le>
     sint (last [100, 4000, 7001 :: long]) + sint PERIODIC_OPERATIONS_INTERVAL \<and>
   filter wdtEvent (trace (final (run
     [restTick 1000, restTick 2500, restTick 4000, restTick 5500, restTick 7000, restTick 7001,
      restTick 8500] (setup_sketch (bootAt 100 4) (powerOn False))))) = [WdtReset, WdtReset] \<and>
   periodicOperationsTime (setup_sketch (bootAt 100 (33 / 10)) (powerOn False)) = 0 \<and>
   resetTimes [restTick 1000, restTick 4000] (setup_sketch (bootAt 100 (33 / 10)) (powerOn False))
     = []"
proof -
  let ?good = "setup_sketch (bootAt 100 4) (powerOn False)"
  let ?dead = "setup_sketch (bootAt 100 (33 / 10)) (powerOn False)"
  let ?es = "[restTick 1000, restTick 2500, restTick 4000, restTick 5500, restTick 7000,
              restTick 7001, restTick 8500]"
  note good = watchdog_reset_gaps [of "bootAt 100 4" False "restTick 1000" ?good ?es 100 1500]
  note dead = watchdog_reset_gaps
    [of "bootAt 100 (33 / 10)" False "restTick 1000" ?dead "[restTick 1000, restTick 4000]" 0 0]
  have armed: "periodicOperationsTime ?good = 100 + PERIODIC_OPERATIONS_INTERVAL"
    and unarmed: "periodicOperationsTime ?dead = 0"
    and quiet: "filter wdtEvent (trace ?good) = []"
    and awake: "\<not> suspended (run ?es ?good)"
    by (simp_all add: sketch_defs constant_defs example_defs)
  from armed have nonzero: "periodicOperationsTime ?good \<noteq> 0"
    and due: "periodicOperationsTime ?good <s now (restTick 4000)"
    by (simp_all add: PERIODIC_OPERATIONS_INTERVAL_def restTick_def)
  have bounds: "0 \<le> sint (100 :: long)"
    "sint (100 :: long) + sint PERIODIC_OPERATIONS_INTERVAL < 2 ^ 31" "(0 :: int) \<le> 1500"
    by (simp_all add: sint_interval)
  have pace: "paced 1500 (sint (100 :: long)) ?es"
    by (simp add: restTick_def sint_interval)
  have times: "resetTimes ?es ?good = [4000, 7001]"
    by (simp add: sketch_defs constant_defs example_defs)
  from good armed bounds pace
  have "spaced (sint PERIODIC_OPERATIONS_INTERVAL + 1500) (sint (100 :: long))
      (resetTimes ?es ?good)"
    by blast
  then have gaps: "spaced (sint PERIODIC_OPERATIONS_INTERVAL + 1500) (sint (100 :: long))
      [4000, 7001]"
    by (simp only: times)
  have margin: "sint PERIODIC_OPERATIONS_INTERVAL + 1500 < int (WDT_TIMEOUT * 1000)"
    by (simp add: sint_interval WDT_TIMEOUT_def)
  with good armed bounds pace
  have "spaced (int (WDT_TIMEOUT * 1000) - 1) (sint (100 :: long)) (resetTimes ?es ?good)"
    by blast
  then have timely: "spaced (int (WDT_TIMEOUT * 1000) - 1) (sint (100 :: long)) [4000, 7001]"
    by (simp only: times)
  from due have "\<exists>e'\<in>set ?es. periodicOperationsTime ?good <s now e'"
    by simp
  with good nonzero awake have "resetTimes ?es ?good \<noteq> []"
    by blast
  have "?es \<noteq> []"
    by simp
  with good armed bounds pace awake
  have "sint (now (last ?es)) \<le>
      sint (last (100 # resetTimes ?es ?good)) + sint PERIODIC_OPERATIONS_INTERVAL"
    by blast
  then have cover: "sint (now (last ?es)) \<le>
      sint (last [100, 4000, 7001 :: long]) + sint PERIODIC_OPERATIONS_INTERVAL"
    by (simp only: times)
  from good have "filter wdtEvent (trace (final (run ?es ?good))) =
      filter wdtEvent (trace ?good) @ replicate (length (resetTimes ?es ?good)) WdtReset"
    by blast
  then have "filter wdtEvent (trace (final (run ?es ?good))) =
      [] @ replicate (length [4000, 7001 :: long]) WdtReset"
    by (simp only: times quiet)
  then have count: "filter wdtEvent (trace (final (run ?es ?good))) = [WdtReset, WdtReset]"
    by simp
  from dead unarmed have none: "resetTimes [restTick 1000, restTick 4000] ?dead = []"
    by blast
  from armed nonzero due bounds pace awake times gaps margin timely cover count unarmed none
  show ?thesis
    by (intro conjI)
qed

end
